theory Spec2Isabelle
  imports Main "HOL-Library.Word"
begin

section \<open>Data model of the backend actor (src/backend/main.mo)\<close>

text \<open>
  The actor keeps six maps and two counters. \<open>UserId\<close> and \<open>FileId\<close> are Motoko
  \<open>Nat32\<close>, whose \<open>+\<close> traps on overflow; \<open>Nat\<close> is unbounded and is \<open>nat\<close> here;
  \<open>Int\<close> (the clock) is \<open>int\<close>; \<open>Text\<close> is \<open>string\<close>; a \<open>Blob\<close> is a list of bytes.
\<close>

type_synonym UserId = "32 word"
type_synonym FileId = "32 word"
type_synonym SessionToken = string
type_synonym Chunk = "8 word list"

datatype Role = Master | Staff | Client

datatype UploadStatus = Pending | Complete

text \<open>The field \<open>id\<close> of \<open>InternalUser\<close> is \<open>id_u\<close> here, \<open>created\<close> of \<open>Session\<close> is \<open>created_s\<close>.\<close>

record InternalUser =
  id_u :: UserId
  username :: string
  passwordHash :: string
  role :: Role
  gbAllocation :: nat
  quota :: nat
  usedBytes :: nat

record File =
  fileId :: FileId
  owner :: UserId
  filename :: string
  mimeType :: string
  totalSize :: nat
  totalChunks :: nat
  status :: UploadStatus
  created :: int
  shareToken :: "string option"

record Session =
  userId :: UserId
  token :: SessionToken
  created_s :: int
  lastActive :: int

record state =
  users :: "UserId \<rightharpoonup> InternalUser"
  usersByName :: "string \<rightharpoonup> UserId"
  files :: "FileId \<rightharpoonup> File"
  chunks :: "string \<rightharpoonup> Chunk"
  sessions :: "SessionToken \<rightharpoonup> Session"
  shareTokens :: "string \<rightharpoonup> FileId"
  userIdCounter :: UserId
  fileIdCounter :: FileId

subsection \<open>Traps\<close>

text \<open>
  Every \<open>Runtime.trap\<close> of the actor is a constructor; \<open>trap_message\<close> gives the text the
  source traps with. \<open>ArithmeticOverflow\<close> is the trap of \<open>Nat32\<close> addition in
  \<open>nextUserId\<close> and \<open>nextFileId\<close>. A trapping call returns \<open>Inl\<close> and no state: the
  canister keeps the state it had before the call.
\<close>

datatype error =
    InvalidSession
  | SessionUserNotFound
  | NotMaster
  | NotMasterOrStaff
  | InvalidCredentials
  | UsernameTaken
  | StaffCreatesClientsOnly
  | UserNotFound
  | StaffDeletesClientsOnly
  | CannotDeleteMaster
  | CannotChangeMasterRole
  | GbLimitClientsOnly
  | QuotaExceeded
  | FileNotFound
  | NotFileOwner
  | MissingChunk nat
  | NoCredentials
  | UnauthorizedBare
  | NoChunksFound
  | ArithmeticOverflow

subsection \<open>Text of numbers\<close>

definition digit_char :: "nat \<Rightarrow> char" where
  "digit_char d = char_of (48 + d)"

fun nat_toText :: "nat \<Rightarrow> string" where
  "nat_toText n =
     (if n < 10 then [digit_char n] else nat_toText (n div 10) @ [digit_char (n mod 10)])"

declare nat_toText.simps [simp del]

definition int_toText :: "int \<Rightarrow> string" where
  "int_toText i = (if i < 0 then CHR ''-'' # nat_toText (nat (- i)) else nat_toText (nat i))"

definition nat32_toText :: "32 word \<Rightarrow> string" where
  "nat32_toText w = nat_toText (unat w)"

text \<open>The decimal value of a digit string, the left inverse of \<open>nat_toText\<close>.\<close>

definition digits_value :: "string \<Rightarrow> nat" where
  "digits_value cs = foldl (\<lambda>a c. 10 * a + (of_char c - 48)) 0 cs"

fun trap_message :: "error \<Rightarrow> string" where
  "trap_message InvalidSession = ''Unauthorized: Invalid or expired session token''"
| "trap_message SessionUserNotFound = ''Unauthorized: User not found for session''"
| "trap_message NotMaster = ''Unauthorized: Only Master role can perform this action''"
| "trap_message NotMasterOrStaff =
     ''Unauthorized: Only Master or Staff roles can perform this action''"
| "trap_message InvalidCredentials = ''Invalid username or password''"
| "trap_message UsernameTaken = ''Username already taken''"
| "trap_message StaffCreatesClientsOnly =
     ''Unauthorized: Staff can only create Client accounts''"
| "trap_message UserNotFound = ''User not found''"
| "trap_message StaffDeletesClientsOnly =
     ''Unauthorized: Staff can only delete Client accounts''"
| "trap_message CannotDeleteMaster = ''Unauthorized: Cannot delete Master account''"
| "trap_message CannotChangeMasterRole =
     ''Unauthorized: Cannot change the role of the Master account''"
| "trap_message GbLimitClientsOnly = ''Can only set GB limit for Client accounts''"
| "trap_message QuotaExceeded = ''Storage quota exceeded''"
| "trap_message FileNotFound = ''File not found''"
| "trap_message NotFileOwner = ''Unauthorized: Not the file owner''"
| "trap_message (MissingChunk i) = ''Missing chunk: '' @ nat_toText i"
| "trap_message NoCredentials = ''Unauthorized: Provide a session or share token''"
| "trap_message UnauthorizedBare = ''Unauthorized''"
| "trap_message NoChunksFound = ''No chunks found. Cannot assemble file.''"
| "trap_message ArithmeticOverflow = ''arithmetic overflow''"

text \<open>The error kind \<open>Unauthorized\<close>: the traps whose message starts with that word.\<close>

definition is_Unauthorized :: "error \<Rightarrow> bool" where
  "is_Unauthorized e = (take 12 (trap_message e) = ''Unauthorized'')"

subsection \<open>Helpers\<close>

definition hashPassword :: "string \<Rightarrow> string" where
  "hashPassword password = password"

text \<open>
  \<open>Time.now()\<close> is the argument \<open>now\<close> of every function that reads the clock: the
  clock has one value while a call runs.
\<close>

definition createToken :: "int \<Rightarrow> string \<Rightarrow> SessionToken" where
  "createToken now seed = (let timestamp = int_toText now in seed @ timestamp @ timestamp)"

definition chunkKey :: "FileId \<Rightarrow> nat \<Rightarrow> string" where
  "chunkKey fid index = nat32_toText fid @ ''_'' @ nat_toText index"

definition requireSession :: "state \<Rightarrow> SessionToken \<Rightarrow> error + InternalUser" where
  "requireSession s tok =
     (case sessions s tok of
        None \<Rightarrow> Inl InvalidSession
      | Some session \<Rightarrow>
          (case users s (userId session) of
             None \<Rightarrow> Inl SessionUserNotFound
           | Some user \<Rightarrow> Inr user))"

definition requireMaster :: "state \<Rightarrow> SessionToken \<Rightarrow> error + InternalUser" where
  "requireMaster s tok =
     (case requireSession s tok of
        Inl e \<Rightarrow> Inl e
      | Inr user \<Rightarrow> if role user \<noteq> Master then Inl NotMaster else Inr user)"

definition requireMasterOrStaff :: "state \<Rightarrow> SessionToken \<Rightarrow> error + InternalUser" where
  "requireMasterOrStaff s tok =
     (case requireSession s tok of
        Inl e \<Rightarrow> Inl e
      | Inr user \<Rightarrow>
          if role user \<noteq> Master \<and> role user \<noteq> Staff then Inl NotMasterOrStaff else Inr user)"

definition nextUserId :: "state \<Rightarrow> error + (UserId \<times> state)" where
  "nextUserId s =
     (if unat (userIdCounter s) + 1 < 2 ^ 32
      then Inr (userIdCounter s + 1, s\<lparr>userIdCounter := userIdCounter s + 1\<rparr>)
      else Inl ArithmeticOverflow)"

definition nextFileId :: "state \<Rightarrow> error + (FileId \<times> state)" where
  "nextFileId s =
     (if unat (fileIdCounter s) + 1 < 2 ^ 32
      then Inr (fileIdCounter s + 1, s\<lparr>fileIdCounter := fileIdCounter s + 1\<rparr>)
      else Inl ArithmeticOverflow)"

text \<open>The state after the seeding block of the actor.\<close>

definition masterUser :: InternalUser where
  "masterUser =
     \<lparr>id_u = 1, username = ''SidneiCosta00'', passwordHash = hashPassword ''Nikebolado@4'',
      role = Master, gbAllocation = 0, quota = 5000000000, usedBytes = 0\<rparr>"

definition init_state :: state where
  "init_state =
     \<lparr>users = [1 \<mapsto> masterUser], usersByName = [''SidneiCosta00'' \<mapsto> 1],
      files = Map.empty, chunks = Map.empty, sessions = Map.empty,
      shareTokens = Map.empty, userIdCounter = 1, fileIdCounter = 0\<rparr>"

section \<open>Chunked upload\<close>

definition initUpload ::
  "state \<Rightarrow> int \<Rightarrow> SessionToken \<Rightarrow> string \<Rightarrow> string \<Rightarrow> nat \<Rightarrow> nat \<Rightarrow> error + (FileId \<times> state)"
where
  "initUpload s now tok fname mime tSize tChunks =
     (case requireSession s tok of
        Inl e \<Rightarrow> Inl e
      | Inr user \<Rightarrow>
          if usedBytes user + tSize > quota user then Inl QuotaExceeded
          else
            (case nextFileId s of
               Inl e \<Rightarrow> Inl e
             | Inr (fid, s1) \<Rightarrow>
                 let f = \<lparr>fileId = fid, owner = id_u user, filename = fname, mimeType = mime,
                          totalSize = tSize, totalChunks = tChunks, status = Pending,
                          created = now, shareToken = None\<rparr>
                 in Inr (fid, s1\<lparr>files := (files s1)(fid \<mapsto> f)\<rparr>)))"

text \<open>The three loops over \<open>Nat.range(0, f.totalChunks)\<close>, run on the list of its indices.\<close>

primrec count_present :: "(string \<rightharpoonup> Chunk) \<Rightarrow> FileId \<Rightarrow> nat list \<Rightarrow> nat \<Rightarrow> nat" where
  "count_present cs fid [] count = count"
| "count_present cs fid (i # is) count =
     (case cs (chunkKey fid i) of
        Some _ \<Rightarrow> count_present cs fid is (count + 1)
      | None \<Rightarrow> count_present cs fid is count)"

primrec scan_chunks :: "(string \<rightharpoonup> Chunk) \<Rightarrow> FileId \<Rightarrow> nat list \<Rightarrow> error + unit" where
  "scan_chunks cs fid [] = Inr ()"
| "scan_chunks cs fid (i # is) =
     (case cs (chunkKey fid i) of
        None \<Rightarrow> Inl (MissingChunk i)
      | Some _ \<Rightarrow> scan_chunks cs fid is)"

primrec collect_parts ::
  "(string \<rightharpoonup> Chunk) \<Rightarrow> FileId \<Rightarrow> nat list \<Rightarrow> Chunk list \<Rightarrow> error + Chunk list"
where
  "collect_parts cs fid [] parts = Inr parts"
| "collect_parts cs fid (i # is) parts =
     (case cs (chunkKey fid i) of
        None \<Rightarrow> Inl (MissingChunk i)
      | Some c \<Rightarrow> collect_parts cs fid is (parts @ [c]))"

primrec remove_chunks :: "(string \<rightharpoonup> Chunk) \<Rightarrow> FileId \<Rightarrow> nat list \<Rightarrow> (string \<rightharpoonup> Chunk)" where
  "remove_chunks cs fid [] = cs"
| "remove_chunks cs fid (i # is) = remove_chunks (cs(chunkKey fid i := None)) fid is"

definition uploadChunk ::
  "state \<Rightarrow> SessionToken \<Rightarrow> FileId \<Rightarrow> nat \<Rightarrow> Chunk \<Rightarrow> error + (nat \<times> state)"
where
  "uploadChunk s tok fid chunkIndex chunkData =
     (case requireSession s tok of
        Inl e \<Rightarrow> Inl e
      | Inr user \<Rightarrow>
          (case files s fid of
             None \<Rightarrow> Inl FileNotFound
           | Some f \<Rightarrow>
               if owner f \<noteq> id_u user \<and> role user \<noteq> Master \<and> role user \<noteq> Staff
               then Inl NotFileOwner
               else
                 let s1 = s\<lparr>chunks := (chunks s)(chunkKey fid chunkIndex \<mapsto> chunkData)\<rparr>
                 in Inr (count_present (chunks s1) fid [0..<totalChunks f] 0, s1)))"

definition finalizeUpload :: "state \<Rightarrow> SessionToken \<Rightarrow> FileId \<Rightarrow> error + (unit \<times> state)" where
  "finalizeUpload s tok fid =
     (case requireSession s tok of
        Inl e \<Rightarrow> Inl e
      | Inr user \<Rightarrow>
          (case files s fid of
             None \<Rightarrow> Inl FileNotFound
           | Some f \<Rightarrow>
               if owner f \<noteq> id_u user \<and> role user \<noteq> Master \<and> role user \<noteq> Staff
               then Inl NotFileOwner
               else
                 (case scan_chunks (chunks s) fid [0..<totalChunks f] of
                    Inl e \<Rightarrow> Inl e
                  | Inr _ \<Rightarrow>
                      let s1 = s\<lparr>files := (files s)(fid \<mapsto> f\<lparr>status := Complete\<rparr>)\<rparr>
                      in (case users s1 (owner f) of
                            None \<Rightarrow> Inr ((), s1)
                          | Some own \<Rightarrow>
                              Inr ((), s1\<lparr>users := (users s1)(owner f \<mapsto>
                                     own\<lparr>usedBytes := usedBytes own + totalSize f\<rparr>)\<rparr>)))))"

section \<open>File functions\<close>

record Download =
  data :: Chunk
  mimeType_d :: string
  filename_d :: string

text \<open>
  \<open>downloadFile\<close> is a query: it returns no state. \<open>Blob.fromArray\<close> of the flattened
  byte arrays of \<open>parts\<close> is \<open>concat parts\<close>.
\<close>

definition downloadFile ::
  "state \<Rightarrow> FileId \<Rightarrow> SessionToken option \<Rightarrow> string option \<Rightarrow> error + Download"
where
  "downloadFile s fid tok shareTok =
     (case files s fid of
        None \<Rightarrow> Inl FileNotFound
      | Some f \<Rightarrow>
          let authorised0 =
                (case shareTok of
                   Some st \<Rightarrow> (case shareTokens s st of Some fid' \<Rightarrow> fid' = fid | None \<Rightarrow> False)
                 | None \<Rightarrow> False)
          in (case (if \<not> authorised0
                    then (case tok of
                            None \<Rightarrow> Inl NoCredentials
                          | Some t \<Rightarrow>
                              (case requireSession s t of
                                 Inl e \<Rightarrow> Inl e
                               | Inr user \<Rightarrow>
                                   if owner f = id_u user \<or> role user = Master \<or> role user = Staff
                                   then Inr True
                                   else Inl NotFileOwner))
                    else Inr authorised0) of
                Inl e \<Rightarrow> Inl e
              | Inr authorised \<Rightarrow>
                  if \<not> authorised then Inl UnauthorizedBare
                  else
                    (case collect_parts (chunks s) fid [0..<totalChunks f] [] of
                       Inl e \<Rightarrow> Inl e
                     | Inr parts \<Rightarrow>
                         if parts = [] then Inl NoChunksFound
                         else Inr \<lparr>data = concat parts, mimeType_d = mimeType f,
                                   filename_d = filename f\<rparr>)))"

text \<open>The assembling part of \<open>downloadFile\<close>, which runs once access is granted.\<close>

definition assemble :: "(string \<rightharpoonup> Chunk) \<Rightarrow> FileId \<Rightarrow> File \<Rightarrow> error + Download" where
  "assemble cs fid f =
     (case collect_parts cs fid [0..<totalChunks f] [] of
        Inl e \<Rightarrow> Inl e
      | Inr parts \<Rightarrow>
          if parts = [] then Inl NoChunksFound
          else Inr \<lparr>data = concat parts, mimeType_d = mimeType f, filename_d = filename f\<rparr>)"

definition deleteFile :: "state \<Rightarrow> SessionToken \<Rightarrow> FileId \<Rightarrow> error + (unit \<times> state)" where
  "deleteFile s tok fid =
     (case requireSession s tok of
        Inl e \<Rightarrow> Inl e
      | Inr user \<Rightarrow>
          (case files s fid of
             None \<Rightarrow> Inl FileNotFound
           | Some f \<Rightarrow>
               if owner f \<noteq> id_u user \<and> role user \<noteq> Master \<and> role user \<noteq> Staff
               then Inl NotFileOwner
               else
                 let s1 = s\<lparr>chunks := remove_chunks (chunks s) fid [0..<totalChunks f]\<rparr>;
                     s2 = (case shareToken f of
                             Some st \<Rightarrow> s1\<lparr>shareTokens := (shareTokens s1)(st := None)\<rparr>
                           | None \<Rightarrow> s1);
                     s3 = s2\<lparr>files := (files s2)(fid := None)\<rparr>
                 in (case users s3 (owner f) of
                       None \<Rightarrow> Inr ((), s3)
                     | Some own \<Rightarrow>
                         let newUsed = (if usedBytes own \<ge> totalSize f
                                        then usedBytes own - totalSize f else 0)
                         in Inr ((), s3\<lparr>users := (users s3)(owner f \<mapsto>
                                         own\<lparr>usedBytes := newUsed\<rparr>)\<rparr>))))"

definition generateShareLink ::
  "state \<Rightarrow> int \<Rightarrow> SessionToken \<Rightarrow> FileId \<Rightarrow> error + (string \<times> state)"
where
  "generateShareLink s now tok fid =
     (case requireSession s tok of
        Inl e \<Rightarrow> Inl e
      | Inr user \<Rightarrow>
          (case files s fid of
             None \<Rightarrow> Inl FileNotFound
           | Some f \<Rightarrow>
               if owner f \<noteq> id_u user \<and> role user \<noteq> Master \<and> role user \<noteq> Staff
               then Inl NotFileOwner
               else
                 (case shareToken f of
                    Some st \<Rightarrow> Inr (st, s)
                  | None \<Rightarrow>
                      let st = createToken now (''share'' @ nat32_toText fid @ int_toText now);
                          s1 = s\<lparr>files := (files s)(fid \<mapsto> f\<lparr>shareToken := Some st\<rparr>)\<rparr>
                      in Inr (st, s1\<lparr>shareTokens := (shareTokens s1)(st \<mapsto> fid)\<rparr>))))"

section \<open>Authentication and user management\<close>

definition login :: "state \<Rightarrow> int \<Rightarrow> string \<Rightarrow> string \<Rightarrow> error + (SessionToken \<times> state)" where
  "login s now uname password =
     (case usersByName s uname of
        None \<Rightarrow> Inl InvalidCredentials
      | Some uid \<Rightarrow>
          (case users s uid of
             None \<Rightarrow> Inl InvalidCredentials
           | Some user \<Rightarrow>
               if passwordHash user \<noteq> hashPassword password then Inl InvalidCredentials
               else
                 let tk = createToken now (uname @ password @ int_toText now);
                     session = \<lparr>userId = id_u user, token = tk, created_s = now,
                                lastActive = now\<rparr>
                 in Inr (tk, s\<lparr>sessions := (sessions s)(tk \<mapsto> session)\<rparr>)))"

definition logout :: "state \<Rightarrow> SessionToken \<Rightarrow> error + (unit \<times> state)" where
  "logout s tok = Inr ((), s\<lparr>sessions := (sessions s)(tok := None)\<rparr>)"

definition registerUser :: "state \<Rightarrow> string \<Rightarrow> string \<Rightarrow> error + (UserId \<times> state)" where
  "registerUser s uname password =
     (case usersByName s uname of
        Some _ \<Rightarrow> Inl UsernameTaken
      | None \<Rightarrow>
          (case nextUserId s of
             Inl e \<Rightarrow> Inl e
           | Inr (uid, s1) \<Rightarrow>
               let newUser = \<lparr>id_u = uid, username = uname,
                              passwordHash = hashPassword password, role = Client,
                              gbAllocation = 5, quota = 5000000000, usedBytes = 0\<rparr>;
                   s2 = s1\<lparr>users := (users s1)(uid \<mapsto> newUser)\<rparr>
               in Inr (uid, s2\<lparr>usersByName := (usersByName s2)(uname \<mapsto> uid)\<rparr>)))"

definition createUser ::
  "state \<Rightarrow> SessionToken \<Rightarrow> string \<Rightarrow> string \<Rightarrow> Role \<Rightarrow> error + (UserId \<times> state)"
where
  "createUser s tok uname password r =
     (case requireMasterOrStaff s tok of
        Inl e \<Rightarrow> Inl e
      | Inr actor \<Rightarrow>
          if role actor = Staff \<and> r \<noteq> Client then Inl StaffCreatesClientsOnly
          else
            (case usersByName s uname of
               Some _ \<Rightarrow> Inl UsernameTaken
             | None \<Rightarrow>
                 (case nextUserId s of
                    Inl e \<Rightarrow> Inl e
                  | Inr (uid, s1) \<Rightarrow>
                      let defaultQuota = (case r of Client \<Rightarrow> 5000000000 | _ \<Rightarrow> 5000000000);
                          defaultGbAllocation = (case r of Client \<Rightarrow> 5 | _ \<Rightarrow> 0);
                          newUser = \<lparr>id_u = uid, username = uname,
                                     passwordHash = hashPassword password, role = r,
                                     gbAllocation = defaultGbAllocation, quota = defaultQuota,
                                     usedBytes = 0\<rparr>;
                          s2 = s1\<lparr>users := (users s1)(uid \<mapsto> newUser)\<rparr>
                      in Inr (uid, s2\<lparr>usersByName := (usersByName s2)(uname \<mapsto> uid)\<rparr>))))"

definition deleteUser :: "state \<Rightarrow> SessionToken \<Rightarrow> UserId \<Rightarrow> error + (unit \<times> state)" where
  "deleteUser s tok uid =
     (case requireMasterOrStaff s tok of
        Inl e \<Rightarrow> Inl e
      | Inr actor \<Rightarrow>
          (case users s uid of
             None \<Rightarrow> Inl UserNotFound
           | Some u \<Rightarrow>
               if role actor = Staff \<and> role u \<noteq> Client then Inl StaffDeletesClientsOnly
               else if role u = Master then Inl CannotDeleteMaster
               else
                 let s1 = s\<lparr>usersByName := (usersByName s)(username u := None)\<rparr>
                 in Inr ((), s1\<lparr>users := (users s1)(uid := None)\<rparr>)))"

definition updateUserRole ::
  "state \<Rightarrow> SessionToken \<Rightarrow> UserId \<Rightarrow> Role \<Rightarrow> error + (unit \<times> state)"
where
  "updateUserRole s tok uid r =
     (case requireMaster s tok of
        Inl e \<Rightarrow> Inl e
      | Inr _ \<Rightarrow>
          (case users s uid of
             None \<Rightarrow> Inl UserNotFound
           | Some u \<Rightarrow>
               if role u = Master then Inl CannotChangeMasterRole
               else Inr ((), s\<lparr>users := (users s)(uid \<mapsto> u\<lparr>role := r\<rparr>)\<rparr>)))"

definition updateUserGbLimit ::
  "state \<Rightarrow> SessionToken \<Rightarrow> UserId \<Rightarrow> nat \<Rightarrow> error + (unit \<times> state)"
where
  "updateUserGbLimit s tok uid gbLimit =
     (case requireMasterOrStaff s tok of
        Inl e \<Rightarrow> Inl e
      | Inr _ \<Rightarrow>
          (case users s uid of
             None \<Rightarrow> Inl UserNotFound
           | Some u \<Rightarrow>
               if role u \<noteq> Client then Inl GbLimitClientsOnly
               else Inr ((), s\<lparr>users := (users s)(uid \<mapsto>
                              u\<lparr>gbAllocation := gbLimit, quota := gbLimit * 1000000000\<rparr>)\<rparr>)))"

section \<open>The actor as a transition system\<close>

text \<open>
  The update calls of the actor. A call that traps leaves the canister in the state it
  had; a call that returns commits its state. \<open>reachable\<close> are the states the actor can
  be in after any sequence of calls from the seeded state, at any clock values.
\<close>

datatype call =
    Login string string
  | Logout SessionToken
  | RegisterUser string string
  | CreateUser SessionToken string string Role
  | DeleteUser SessionToken UserId
  | UpdateUserRole SessionToken UserId Role
  | UpdateUserGbLimit SessionToken UserId nat
  | InitUpload SessionToken string string nat nat
  | UploadChunk SessionToken FileId nat Chunk
  | FinalizeUpload SessionToken FileId
  | DeleteFile SessionToken FileId
  | GenerateShareLink SessionToken FileId

fun exec :: "state \<Rightarrow> int \<Rightarrow> call \<Rightarrow> error + state" where
  "exec s now (Login u p) = map_sum id snd (login s now u p)"
| "exec s now (Logout t) = map_sum id snd (logout s t)"
| "exec s now (RegisterUser u p) = map_sum id snd (registerUser s u p)"
| "exec s now (CreateUser t u p r) = map_sum id snd (createUser s t u p r)"
| "exec s now (DeleteUser t uid) = map_sum id snd (deleteUser s t uid)"
| "exec s now (UpdateUserRole t uid r) = map_sum id snd (updateUserRole s t uid r)"
| "exec s now (UpdateUserGbLimit t uid g) = map_sum id snd (updateUserGbLimit s t uid g)"
| "exec s now (InitUpload t fn mt sz n) = map_sum id snd (initUpload s now t fn mt sz n)"
| "exec s now (UploadChunk t fid i d) = map_sum id snd (uploadChunk s t fid i d)"
| "exec s now (FinalizeUpload t fid) = map_sum id snd (finalizeUpload s t fid)"
| "exec s now (DeleteFile t fid) = map_sum id snd (deleteFile s t fid)"
| "exec s now (GenerateShareLink t fid) = map_sum id snd (generateShareLink s now t fid)"

definition commit :: "state \<Rightarrow> error + state \<Rightarrow> state" where
  "commit s r = (case r of Inl _ \<Rightarrow> s | Inr s' \<Rightarrow> s')"

fun run :: "state \<Rightarrow> (int \<times> call) list \<Rightarrow> state" where
  "run s [] = s"
| "run s ((now, c) # cs) = run (commit s (exec s now c)) cs"

inductive reachable :: "state \<Rightarrow> bool" where
  reachable_init: "reachable init_state"
| reachable_step: "reachable s \<Longrightarrow> exec s now c = Inr s' \<Longrightarrow> reachable s'"

text \<open>Every file identifier in use is at most the counter.\<close>

definition files_below_counter :: "state \<Rightarrow> bool" where
  "files_below_counter s = (\<forall>fid f. files s fid = Some f \<longrightarrow> unat fid \<le> unat (fileIdCounter s))"

text \<open>
  Every bound share token has the shape \<open>generateShareLink\<close> gives it, with a clock text
  of length \<open>L\<close>.
\<close>

definition share_tokens_wf :: "nat \<Rightarrow> state \<Rightarrow> bool" where
  "share_tokens_wf L s =
     (\<forall>st fid. shareTokens s st = Some fid
        \<longrightarrow> (\<exists>ts. length ts = L \<and> st = ''share'' @ nat32_toText fid @ ts @ ts @ ts))"

text \<open>Uploading a list of (index, data) pairs in the order given, as the client does.\<close>

fun uploadAll :: "state \<Rightarrow> SessionToken \<Rightarrow> FileId \<Rightarrow> (nat \<times> Chunk) list \<Rightarrow> error + state" where
  "uploadAll s tok fid [] = Inr s"
| "uploadAll s tok fid ((i, d) # ups) =
     (case uploadChunk s tok fid i d of
        Inl e \<Rightarrow> Inl e
      | Inr (_, s1) \<Rightarrow> uploadAll s1 tok fid ups)"

text \<open>The rule every file operation checks: the caller owns the file or is Master or Staff.\<close>

definition owner_or_elevated :: "InternalUser \<Rightarrow> File \<Rightarrow> bool" where
  "owner_or_elevated user f = (owner f = id_u user \<or> role user = Master \<or> role user = Staff)"

section \<open>Concrete states\<close>

text \<open>
  All states of this section are reachable from the seeded state (shown at the end).
  A state of the actor after the master has logged in at time 0, \<open>bob\<close> and \<open>carol\<close> have
  registered and logged in at times 1 and 2, \<open>bob\<close> has started the upload of a file
  of 6 bytes in 3 chunks and \<open>carol\<close> that of an empty file.
\<close>

definition master_token :: SessionToken where
  "master_token = ''SidneiCosta00Nikebolado@4000''"

definition bob_token :: SessionToken where
  "bob_token = ''bobpw111''"

definition carol_token :: SessionToken where
  "carol_token = ''carolpw222''"

definition bob :: InternalUser where
  "bob = \<lparr>id_u = 2, username = ''bob'', passwordHash = ''pw'', role = Client,
          gbAllocation = 5, quota = 5000000000, usedBytes = 0\<rparr>"

definition carol :: InternalUser where
  "carol = \<lparr>id_u = 3, username = ''carol'', passwordHash = ''pw'', role = Client,
            gbAllocation = 5, quota = 5000000000, usedBytes = 0\<rparr>"

definition demo_file :: File where
  "demo_file = \<lparr>fileId = 1, owner = 2, filename = ''a.txt'', mimeType = ''text/plain'',
                totalSize = 6, totalChunks = 3, status = Pending, created = 3,
                shareToken = None\<rparr>"

definition carol_file :: File where
  "carol_file = \<lparr>fileId = 2, owner = 3, filename = ''b.bin'',
                 mimeType = ''application/octet-stream'', totalSize = 0, totalChunks = 0,
                 status = Pending, created = 4, shareToken = None\<rparr>"

definition demo_state :: state where
  "demo_state =
     \<lparr>users = [1 \<mapsto> masterUser, 2 \<mapsto> bob, 3 \<mapsto> carol],
      usersByName = [''SidneiCosta00'' \<mapsto> 1, ''bob'' \<mapsto> 2, ''carol'' \<mapsto> 3],
      files = [1 \<mapsto> demo_file, 2 \<mapsto> carol_file],
      chunks = Map.empty,
      sessions = [master_token \<mapsto> \<lparr>userId = 1, token = master_token, created_s = 0,
                                      lastActive = 0\<rparr>,
                  bob_token \<mapsto> \<lparr>userId = 2, token = bob_token, created_s = 1,
                                   lastActive = 1\<rparr>,
                  carol_token \<mapsto> \<lparr>userId = 3, token = carol_token, created_s = 2,
                                     lastActive = 2\<rparr>],
      shareTokens = Map.empty, userIdCounter = 3, fileIdCounter = 2\<rparr>"

text \<open>The same state with the three chunks stored.\<close>

definition demo_chunks :: "string \<rightharpoonup> Chunk" where
  "demo_chunks = [chunkKey 1 0 \<mapsto> [1, 2], chunkKey 1 1 \<mapsto> [3], chunkKey 1 2 \<mapsto> [4, 5, 6]]"

definition demo_full :: state where
  "demo_full = demo_state\<lparr>chunks := demo_chunks\<rparr>"

text \<open>The state after \<open>bob\<close> has asked for a share link of his file at time 5.\<close>

definition demo_shared :: state where
  "demo_shared =
     demo_full\<lparr>files := (files demo_full)(1 \<mapsto> demo_file\<lparr>shareToken := Some ''share1555''\<rparr>),
               shareTokens := [''share1555'' \<mapsto> 1]\<rparr>"

text \<open>
  The state after \<open>bob\<close> has registered and logged in at time 1, and the states after he
  has then started \<open>n\<close> uploads of empty files; after \<open>2^32 - 1\<close> of them the file
  identifiers are used up.
\<close>

definition bob_logged_in :: state where
  "bob_logged_in =
     \<lparr>users = [1 \<mapsto> masterUser, 2 \<mapsto> bob],
      usersByName = [''SidneiCosta00'' \<mapsto> 1, ''bob'' \<mapsto> 2],
      files = Map.empty, chunks = Map.empty,
      sessions = [bob_token \<mapsto> \<lparr>userId = 2, token = bob_token, created_s = 1,
                                   lastActive = 1\<rparr>],
      shareTokens = Map.empty, userIdCounter = 2, fileIdCounter = 0\<rparr>"

definition empty_file :: "FileId \<Rightarrow> File" where
  "empty_file fid =
     \<lparr>fileId = fid, owner = 2, filename = [], mimeType = [], totalSize = 0, totalChunks = 0,
      status = Pending, created = 1, shareToken = None\<rparr>"

definition after_uploads :: "nat \<Rightarrow> state" where
  "after_uploads n =
     bob_logged_in\<lparr>files := (\<lambda>fid. if 0 < unat fid \<and> unat fid \<le> n
                                     then Some (empty_file fid) else None),
                   fileIdCounter := of_nat n\<rparr>"

definition ids_exhausted :: state where
  "ids_exhausted = after_uploads 4294967295"

text \<open>
  Two uploads of 5 GB each, started one after the other by \<open>bob\<close> (whose quota is 5 GB)
  and then both finalized.
\<close>

definition quota_race :: "(int \<times> call) list" where
  "quota_race =
     [(2, InitUpload bob_token ''a.bin'' ''x'' 5000000000 0),
      (3, InitUpload bob_token ''b.bin'' ''x'' 5000000000 0),
      (4, FinalizeUpload bob_token 1),
      (5, FinalizeUpload bob_token 2)]"

text \<open>
  The states after \<open>bob\<close> has started \<open>n\<close> uploads of one chunk each, and a run in which
  one share token is generated twice: \<open>bob\<close> stores a chunk of file 1 and starts 1109
  more uploads, \<open>carol\<close> registers, logs in at time 1 and uploads file 1111
  (\<open>collision_base\<close>), she asks for its share link at time 1 (\<open>collision_before\<close>),
  and \<open>bob\<close> asks for the share link of file 1 at time 11 (\<open>collision_after\<close>).
\<close>

definition one_chunk_file :: "FileId \<Rightarrow> File" where
  "one_chunk_file fid =
     \<lparr>fileId = fid, owner = 2, filename = [], mimeType = [], totalSize = 0, totalChunks = 1,
      status = Pending, created = 1, shareToken = None\<rparr>"

definition bob_uploads :: "nat \<Rightarrow> state" where
  "bob_uploads n =
     bob_logged_in\<lparr>files := (\<lambda>fid. if 0 < unat fid \<and> unat fid \<le> n
                                     then Some (one_chunk_file fid) else None),
                   fileIdCounter := of_nat n\<rparr>"

definition carol_early_token :: SessionToken where
  "carol_early_token = ''carolpw111''"

definition carol_late_file :: File where
  "carol_late_file =
     \<lparr>fileId = 1111, owner = 3, filename = ''c.bin'', mimeType = ''x'', totalSize = 1,
      totalChunks = 1, status = Pending, created = 1, shareToken = None\<rparr>"

definition collision_base :: state where
  "collision_base =
     \<lparr>users = [1 \<mapsto> masterUser, 2 \<mapsto> bob, 3 \<mapsto> carol],
      usersByName = [''SidneiCosta00'' \<mapsto> 1, ''bob'' \<mapsto> 2, ''carol'' \<mapsto> 3],
      files = (\<lambda>fid. if 0 < unat fid \<and> unat fid \<le> 1110
                       then Some (one_chunk_file fid) else None)(1111 \<mapsto> carol_late_file),
      chunks = [chunkKey 1 0 \<mapsto> [7], chunkKey 1111 0 \<mapsto> [9]],
      sessions = [bob_token \<mapsto> \<lparr>userId = 2, token = bob_token, created_s = 1,
                                   lastActive = 1\<rparr>,
                  carol_early_token \<mapsto> \<lparr>userId = 3, token = carol_early_token,
                                           created_s = 1, lastActive = 1\<rparr>],
      shareTokens = Map.empty, userIdCounter = 3, fileIdCounter = 1111\<rparr>"

definition collision_before :: state where
  "collision_before =
     collision_base\<lparr>files := (files collision_base)
                       (1111 \<mapsto> carol_late_file\<lparr>shareToken := Some ''share1111111''\<rparr>),
                    shareTokens := [''share1111111'' \<mapsto> 1111]\<rparr>"

definition collision_after :: state where
  "collision_after =
     collision_before\<lparr>files := (files collision_before)
                         (1 \<mapsto> (one_chunk_file 1)\<lparr>shareToken := Some ''share1111111''\<rparr>),
                      shareTokens := [''share1111111'' \<mapsto> 1]\<rparr>"

section \<open>Chunk keys\<close>

lemma digit_value: "d < 10 \<Longrightarrow> of_char (digit_char d) - 48 = (d::nat)"
  by (simp add: digit_char_def)

lemma digits_value_snoc: "digits_value (cs @ [c]) = 10 * digits_value cs + (of_char c - 48)"
  by (simp add: digits_value_def)

lemma digits_value_nat_toText: "digits_value (nat_toText n) = n"
proof (induction n rule: nat_toText.induct)
  case (1 n)
  show ?case
  proof (cases "n < 10")
    case True
    then show ?thesis
      by (subst nat_toText.simps) (simp add: digits_value_def digit_value)
  next
    case False
    with 1 have "digits_value (nat_toText (n div 10)) = n div 10" by simp
    with False show ?thesis
      by (subst nat_toText.simps) (simp add: digits_value_snoc digit_value)
  qed
qed

lemma nat_toText_inj: "nat_toText m = nat_toText n \<Longrightarrow> m = n"
  by (metis digits_value_nat_toText)

text \<open>Two indices of one file never share a key of the chunk map.\<close>

lemma chunkKey_inj [simp]: "chunkKey fid i = chunkKey fid j \<longleftrightarrow> i = j"
  by (auto simp: chunkKey_def dest: nat_toText_inj)

lemma nat32_toText_1: "nat32_toText 1 = ''1''"
  by code_simp

section \<open>The loops over the chunk indices\<close>

lemma count_present_eq:
  "count_present cs fid is c = c + length (filter (\<lambda>i. cs (chunkKey fid i) \<noteq> None) is)"
  by (induction "is" arbitrary: c) (auto split: option.splits)

lemma scan_chunks_Inr:
  "(scan_chunks cs fid is = Inr ()) \<longleftrightarrow> (\<forall>i\<in>set is. cs (chunkKey fid i) \<noteq> None)"
  by (induction "is") (auto split: option.splits)

lemma scan_chunks_Inl:
  assumes "\<forall>i\<in>set is1. cs (chunkKey fid i) \<noteq> None" and "cs (chunkKey fid k) = None"
  shows "scan_chunks cs fid (is1 @ k # is2) = Inl (MissingChunk k)"
  using assms by (induction is1) (auto split: option.splits)

lemma collect_parts_all:
  "\<forall>i\<in>set is. cs (chunkKey fid i) \<noteq> None \<Longrightarrow>
   collect_parts cs fid is parts = Inr (parts @ map (\<lambda>i. the (cs (chunkKey fid i))) is)"
  by (induction "is" arbitrary: parts) (auto split: option.splits)

lemma collect_parts_Inl:
  assumes "\<forall>i\<in>set is1. cs (chunkKey fid i) \<noteq> None" and "cs (chunkKey fid k) = None"
  shows "collect_parts cs fid (is1 @ k # is2) parts = Inl (MissingChunk k)"
  using assms by (induction is1 arbitrary: parts) (auto split: option.splits)

lemma remove_chunks_apply:
  "remove_chunks cs fid is k = (if k \<in> chunkKey fid ` set is then None else cs k)"
  by (induction "is" arbitrary: cs) auto

lemma upt_split: "k < n \<Longrightarrow> [0..<n] = [0..<k] @ k # [Suc k..<n]"
  by (metis less_imp_le_nat upt_add_eq_append upt_conv_Cons zero_le le_add_diff_inverse)

section \<open>Sessions\<close>

lemma requireSession_chunks [simp]:
  "requireSession (s\<lparr>chunks := cs\<rparr>) tok = requireSession s tok"
  by (simp add: requireSession_def split: option.splits)

lemma requireSession_cong:
  "users s1 = users s \<Longrightarrow> sessions s1 = sessions s
   \<Longrightarrow> requireSession s1 tok = requireSession s tok"
  by (simp add: requireSession_def split: option.splits)

section \<open>Facts about the concrete states\<close>

lemma demo_state_file: "files demo_state 1 = Some demo_file"
  by (simp add: demo_state_def)

lemma demo_state_bob: "requireSession demo_state bob_token = Inr bob"
  by (simp add: requireSession_def demo_state_def bob_token_def carol_token_def master_token_def)

lemma demo_state_carol: "requireSession demo_state carol_token = Inr carol"
  by (simp add: requireSession_def demo_state_def bob_token_def carol_token_def master_token_def)

lemma demo_state_master: "requireSession demo_state master_token = Inr masterUser"
  by (simp add: requireSession_def demo_state_def bob_token_def carol_token_def master_token_def)

lemma bob_owns_demo_file: "owner_or_elevated bob demo_file"
  by (simp add: owner_or_elevated_def bob_def demo_file_def)

lemma demo_full_file: "files demo_full 1 = Some demo_file"
  by (simp add: demo_full_def demo_state_file)

lemma demo_full_bob: "requireSession demo_full bob_token = Inr bob"
  by (simp add: demo_full_def demo_state_bob)

section \<open>Uploading chunks\<close>

lemma uploadChunk_ok:
  assumes "files s fid = Some f" "requireSession s tok = Inr user" "owner_or_elevated user f"
  shows "uploadChunk s tok fid i d =
    Inr (length (filter (\<lambda>j. j = i \<or> chunks s (chunkKey fid j) \<noteq> None) [0..<totalChunks f]),
         s\<lparr>chunks := (chunks s)(chunkKey fid i \<mapsto> d)\<rparr>)"
proof -
  have "(\<lambda>j. ((chunks s)(chunkKey fid i \<mapsto> d)) (chunkKey fid j) \<noteq> None)
      = (\<lambda>j. j = i \<or> chunks s (chunkKey fid j) \<noteq> None)"
    by auto
  with assms show ?thesis
    by (simp add: uploadChunk_def owner_or_elevated_def count_present_eq Let_def)
qed

text \<open>
  Claim C5. When the file exists and the caller owns it or is Master or Staff,
  \<open>uploadChunk\<close> returns, and a second call with the same file, index and data returns
  the same count and the same state as the first: the blob stored under the index is the
  data sent, and the count never exceeds \<open>totalChunks\<close>.
\<close>

theorem uploadChunk_idempotent:
  assumes "files s fid = Some f" "requireSession s tok = Inr user" "owner_or_elevated user f"
  shows "\<exists>c s'. uploadChunk s tok fid i d = Inr (c, s')
           \<and> uploadChunk s' tok fid i d = Inr (c, s')
           \<and> chunks s' (chunkKey fid i) = Some d
           \<and> c \<le> totalChunks f"
proof -
  let ?s' = "s\<lparr>chunks := (chunks s)(chunkKey fid i \<mapsto> d)\<rparr>"
  let ?c = "length (filter (\<lambda>j. j = i \<or> chunks s (chunkKey fid j) \<noteq> None) [0..<totalChunks f])"
  have 1: "uploadChunk s tok fid i d = Inr (?c, ?s')"
    by (rule uploadChunk_ok [OF assms])
  have f': "files ?s' fid = Some f" and r': "requireSession ?s' tok = Inr user"
    using assms by simp_all
  have "(\<lambda>j. j = i \<or> chunks ?s' (chunkKey fid j) \<noteq> None)
      = (\<lambda>j. j = i \<or> chunks s (chunkKey fid j) \<noteq> None)"
    by auto
  then have 2: "uploadChunk ?s' tok fid i d = Inr (?c, ?s')"
    using uploadChunk_ok [OF f' r' assms(3), of i d] by simp
  have 3: "?c \<le> totalChunks f"
    using length_filter_le [of _ "[0..<totalChunks f]"] by simp
  from 1 2 3 show ?thesis by simp
qed

theorem uploadChunk_idempotent_witness:
  "files demo_state 1 = Some demo_file \<and> requireSession demo_state bob_token = Inr bob
   \<and> owner_or_elevated bob demo_file
   \<and> (\<exists>c s'. uploadChunk demo_state bob_token 1 0 [1, 2] = Inr (c, s')
           \<and> uploadChunk s' bob_token 1 0 [1, 2] = Inr (c, s')
           \<and> chunks s' (chunkKey 1 0) = Some [1, 2]
           \<and> c \<le> totalChunks demo_file)"
  using uploadChunk_idempotent [OF demo_state_file demo_state_bob bob_owns_demo_file, of 0 "[1, 2]"]
    demo_state_file demo_state_bob bob_owns_demo_file
  by simp

section \<open>Finalizing an upload\<close>

lemma finalizeUpload_ok:
  assumes "files s fid = Some f" "requireSession s tok = Inr user" "owner_or_elevated user f"
    and "\<forall>i<totalChunks f. chunks s (chunkKey fid i) \<noteq> None"
  shows "finalizeUpload s tok fid =
    Inr ((), case users s (owner f) of
               None \<Rightarrow> s\<lparr>files := (files s)(fid \<mapsto> f\<lparr>status := Complete\<rparr>)\<rparr>
             | Some own \<Rightarrow>
                 s\<lparr>files := (files s)(fid \<mapsto> f\<lparr>status := Complete\<rparr>),
                   users := (users s)(owner f \<mapsto> own\<lparr>usedBytes := usedBytes own + totalSize f\<rparr>)\<rparr>)"
proof -
  have "scan_chunks (chunks s) fid [0..<totalChunks f] = Inr ()"
    using assms(4) by (simp add: scan_chunks_Inr)
  with assms(1-3) show ?thesis
    by (simp add: finalizeUpload_def owner_or_elevated_def split: option.splits)
qed

lemma finalizeUpload_missing:
  assumes "files s fid = Some f" "requireSession s tok = Inr user" "owner_or_elevated user f"
    and "k < totalChunks f" "chunks s (chunkKey fid k) = None"
    and "\<forall>j<k. chunks s (chunkKey fid j) \<noteq> None"
  shows "finalizeUpload s tok fid = Inl (MissingChunk k)"
proof -
  have "scan_chunks (chunks s) fid ([0..<k] @ k # [Suc k..<totalChunks f]) = Inl (MissingChunk k)"
    using assms(5,6) by (intro scan_chunks_Inl) simp_all
  then have "scan_chunks (chunks s) fid [0..<totalChunks f] = Inl (MissingChunk k)"
    using upt_split [OF assms(4)] by simp
  with assms(1-3) show ?thesis
    by (simp add: finalizeUpload_def owner_or_elevated_def)
qed

lemma finalizeUpload_Inr_iff:
  assumes "files s fid = Some f" "requireSession s tok = Inr user" "owner_or_elevated user f"
  shows "(\<exists>s'. finalizeUpload s tok fid = Inr ((), s'))
     \<longleftrightarrow> (\<forall>i<totalChunks f. chunks s (chunkKey fid i) \<noteq> None)"
proof
  assume "\<exists>s'. finalizeUpload s tok fid = Inr ((), s')"
  then have "scan_chunks (chunks s) fid [0..<totalChunks f] = Inr ()"
    using assms by (auto simp: finalizeUpload_def owner_or_elevated_def split: sum.splits)
  then show "\<forall>i<totalChunks f. chunks s (chunkKey fid i) \<noteq> None"
    by (simp add: scan_chunks_Inr)
next
  assume "\<forall>i<totalChunks f. chunks s (chunkKey fid i) \<noteq> None"
  from finalizeUpload_ok [OF assms this] show "\<exists>s'. finalizeUpload s tok fid = Inr ((), s')"
    by blast
qed

lemma uploadAll_ok:
  assumes "files s fid = Some f" "requireSession s tok = Inr user" "owner_or_elevated user f"
  shows "\<exists>s1. uploadAll s tok fid ups = Inr s1 \<and> files s1 = files s \<and> users s1 = users s
      \<and> sessions s1 = sessions s
      \<and> (\<forall>j. chunks s1 (chunkKey fid j) \<noteq> None
               \<longleftrightarrow> j \<in> fst ` set ups \<or> chunks s (chunkKey fid j) \<noteq> None)"
  using assms
proof (induction ups arbitrary: s)
  case Nil
  then show ?case by simp
next
  case (Cons p ups)
  obtain i d where p: "p = (i, d)" by (cases p)
  let ?s = "s\<lparr>chunks := (chunks s)(chunkKey fid i \<mapsto> d)\<rparr>"
  have up: "uploadChunk s tok fid i d = Inr (length (filter (\<lambda>j. j = i \<or> chunks s (chunkKey fid j) \<noteq> None) [0..<totalChunks f]), ?s)"
    by (rule uploadChunk_ok [OF Cons.prems])
  have "files ?s fid = Some f" "requireSession ?s tok = Inr user"
    using Cons.prems by simp_all
  from Cons.IH [OF this Cons.prems(3)] obtain s1 where
    s1: "uploadAll ?s tok fid ups = Inr s1" "files s1 = files ?s" "users s1 = users ?s"
      "sessions s1 = sessions ?s"
      "\<forall>j. chunks s1 (chunkKey fid j) \<noteq> None
               \<longleftrightarrow> j \<in> fst ` set ups \<or> chunks ?s (chunkKey fid j) \<noteq> None"
    by blast
  have "uploadAll s tok fid (p # ups) = Inr s1"
    using up s1(1) by (simp add: p)
  moreover have "\<forall>j. chunks s1 (chunkKey fid j) \<noteq> None
               \<longleftrightarrow> j \<in> fst ` set (p # ups) \<or> chunks s (chunkKey fid j) \<noteq> None"
    using s1(5) by (auto simp: p)
  ultimately show ?case using s1(2-4) by simp
qed

text \<open>
  Claim C1. For an existing file and a caller who owns it or is Master or Staff,
  \<open>finalizeUpload\<close> returns exactly when every index below \<open>totalChunks\<close> has a chunk;
  when \<open>k\<close> is the lowest index without one it traps with \<open>MissingChunk k\<close>; when it
  returns the file is \<open>Complete\<close>. After uploading the indices \<open>0..N-1\<close> in any order
  (and any number of times) it returns; when no chunk was stored before and the uploads
  leave \<open>k\<close> as the lowest index not sent, it traps with \<open>MissingChunk k\<close>.
\<close>

theorem finalizeUpload_completeness:
  assumes "files s fid = Some f" "requireSession s tok = Inr user" "owner_or_elevated user f"
  shows "((\<exists>s'. finalizeUpload s tok fid = Inr ((), s'))
            \<longleftrightarrow> (\<forall>i<totalChunks f. chunks s (chunkKey fid i) \<noteq> None))
       \<and> (k < totalChunks f \<and> chunks s (chunkKey fid k) = None
            \<and> (\<forall>j<k. chunks s (chunkKey fid j) \<noteq> None)
          \<longrightarrow> finalizeUpload s tok fid = Inl (MissingChunk k))
       \<and> (finalizeUpload s tok fid = Inr ((), s') \<longrightarrow> files s' fid = Some (f\<lparr>status := Complete\<rparr>))
       \<and> (set (map fst ups) = {0..<totalChunks f}
          \<longrightarrow> (\<exists>s1 s2. uploadAll s tok fid ups = Inr s1
                 \<and> finalizeUpload s1 tok fid = Inr ((), s2)
                 \<and> files s2 fid = Some (f\<lparr>status := Complete\<rparr>)))
       \<and> ((\<forall>i<totalChunks f. chunks s (chunkKey fid i) = None)
            \<and> k < totalChunks f \<and> k \<notin> set (map fst ups) \<and> (\<forall>j<k. j \<in> set (map fst ups))
          \<longrightarrow> (\<exists>s1. uploadAll s tok fid ups = Inr s1
                 \<and> finalizeUpload s1 tok fid = Inl (MissingChunk k)))"
proof (intro conjI impI)
  show "(\<exists>s'. finalizeUpload s tok fid = Inr ((), s'))
            \<longleftrightarrow> (\<forall>i<totalChunks f. chunks s (chunkKey fid i) \<noteq> None)"
    by (rule finalizeUpload_Inr_iff [OF assms])
next
  assume "k < totalChunks f \<and> chunks s (chunkKey fid k) = None
            \<and> (\<forall>j<k. chunks s (chunkKey fid j) \<noteq> None)"
  then show "finalizeUpload s tok fid = Inl (MissingChunk k)"
    using finalizeUpload_missing [OF assms] by blast
next
  assume a: "finalizeUpload s tok fid = Inr ((), s')"
  then have "\<forall>i<totalChunks f. chunks s (chunkKey fid i) \<noteq> None"
    using finalizeUpload_Inr_iff [OF assms] by blast
  from finalizeUpload_ok [OF assms this] a show "files s' fid = Some (f\<lparr>status := Complete\<rparr>)"
    by (auto split: option.splits)
next
  assume a: "set (map fst ups) = {0..<totalChunks f}"
  from uploadAll_ok [OF assms, of ups] obtain s1 where
    s1: "uploadAll s tok fid ups = Inr s1" "files s1 = files s" "users s1 = users s"
      "sessions s1 = sessions s"
      "\<forall>j. chunks s1 (chunkKey fid j) \<noteq> None
               \<longleftrightarrow> j \<in> fst ` set ups \<or> chunks s (chunkKey fid j) \<noteq> None"
    by blast
  have f1: "files s1 fid = Some f" and r1: "requireSession s1 tok = Inr user"
    using s1 assms requireSession_cong [of s1 s tok] by simp_all
  have all: "\<forall>i<totalChunks f. chunks s1 (chunkKey fid i) \<noteq> None"
    using s1(5) a by auto
  from finalizeUpload_ok [OF f1 r1 assms(3) all] obtain s2 where
    s2: "finalizeUpload s1 tok fid = Inr ((), s2)" "files s2 fid = Some (f\<lparr>status := Complete\<rparr>)"
    by (cases "users s1 (owner f)") auto
  with s1(1) show "\<exists>s1 s2. uploadAll s tok fid ups = Inr s1
                 \<and> finalizeUpload s1 tok fid = Inr ((), s2)
                 \<and> files s2 fid = Some (f\<lparr>status := Complete\<rparr>)"
    by blast
next
  assume a: "(\<forall>i<totalChunks f. chunks s (chunkKey fid i) = None)
            \<and> k < totalChunks f \<and> k \<notin> set (map fst ups) \<and> (\<forall>j<k. j \<in> set (map fst ups))"
  from uploadAll_ok [OF assms, of ups] obtain s1 where
    s1: "uploadAll s tok fid ups = Inr s1" "files s1 = files s" "users s1 = users s"
      "sessions s1 = sessions s"
      "\<forall>j. chunks s1 (chunkKey fid j) \<noteq> None
               \<longleftrightarrow> j \<in> fst ` set ups \<or> chunks s (chunkKey fid j) \<noteq> None"
    by blast
  have f1: "files s1 fid = Some f" and r1: "requireSession s1 tok = Inr user"
    using s1 assms requireSession_cong [of s1 s tok] by simp_all
  have k: "chunks s1 (chunkKey fid k) = None"
    using s1(5) a by auto
  have below: "\<forall>j<k. chunks s1 (chunkKey fid j) \<noteq> None"
    using s1(5) a by auto
  from finalizeUpload_missing [OF f1 r1 assms(3) _ k below] a s1(1)
  show "\<exists>s1. uploadAll s tok fid ups = Inr s1
                 \<and> finalizeUpload s1 tok fid = Inl (MissingChunk k)"
    by blast
qed

theorem finalizeUpload_completeness_witness:
  "files demo_state 1 = Some demo_file \<and> requireSession demo_state bob_token = Inr bob
   \<and> owner_or_elevated bob demo_file
   \<and> finalizeUpload demo_state bob_token 1 = Inl (MissingChunk 0)
   \<and> (\<exists>s1 s2. uploadAll demo_state bob_token 1 [(1, [3]), (0, [1, 2]), (2, [4, 5, 6])] = Inr s1
         \<and> finalizeUpload s1 bob_token 1 = Inr ((), s2)
         \<and> files s2 1 = Some (demo_file\<lparr>status := Complete\<rparr>))
   \<and> (\<exists>s1. uploadAll demo_state bob_token 1 [(2, [4, 5, 6]), (0, [1, 2])] = Inr s1
         \<and> finalizeUpload s1 bob_token 1 = Inl (MissingChunk 1))"
proof -
  have n: "totalChunks demo_file = 3" by (simp add: demo_file_def)
  have e: "chunks demo_state = Map.empty" by (simp add: demo_state_def)
  have s: "{0..<3::nat} = {1, 0, 2}" by auto
  have l: "\<forall>j<Suc 0. j = 0" by simp
  note t = finalizeUpload_completeness [OF demo_state_file demo_state_bob bob_owns_demo_file]
  from t [of 0 _ "[(1, [3]), (0, [1, 2]), (2, [4, 5, 6])]"]
  have "finalizeUpload demo_state bob_token 1 = Inl (MissingChunk 0)"
    and "\<exists>s1 s2. uploadAll demo_state bob_token 1 [(1, [3]), (0, [1, 2]), (2, [4, 5, 6])] = Inr s1
         \<and> finalizeUpload s1 bob_token 1 = Inr ((), s2)
         \<and> files s2 1 = Some (demo_file\<lparr>status := Complete\<rparr>)"
    by (simp_all add: n e s)
  moreover from t [of 1 _ "[(2, [4, 5, 6]), (0, [1, 2])]"]
  have "\<exists>s1. uploadAll demo_state bob_token 1 [(2, [4, 5, 6]), (0, [1, 2])] = Inr s1
         \<and> finalizeUpload s1 bob_token 1 = Inl (MissingChunk 1)"
    by (simp add: n e)
  ultimately show ?thesis
    using demo_state_file demo_state_bob bob_owns_demo_file by simp
qed

section \<open>Download, deletion, sharing and access\<close>

lemma downloadFile_share:
  assumes "files s fid = Some f" "shareTokens s st = Some fid"
  shows "downloadFile s fid tok (Some st) = assemble (chunks s) fid f"
  using assms by (simp add: downloadFile_def assemble_def)

lemma downloadFile_session:
  assumes "files s fid = Some f"
    and "shareTok = None \<or> (\<exists>st. shareTok = Some st \<and> shareTokens s st \<noteq> Some fid)"
  shows "downloadFile s fid tok shareTok =
    (case tok of
       None \<Rightarrow> Inl NoCredentials
     | Some t \<Rightarrow>
        (case requireSession s t of
           Inl e \<Rightarrow> Inl e
         | Inr user \<Rightarrow>
             if owner_or_elevated user f then assemble (chunks s) fid f else Inl NotFileOwner))"
proof -
  have "(case shareTok of
           Some st \<Rightarrow> (case shareTokens s st of Some fid' \<Rightarrow> fid' = fid | None \<Rightarrow> False)
         | None \<Rightarrow> False) = False"
    using assms(2) by (auto split: option.splits)
  then show ?thesis
    using assms(1)
    by (simp add: downloadFile_def assemble_def owner_or_elevated_def
        split: option.splits sum.splits)
qed

lemma assemble_all:
  assumes "1 \<le> totalChunks f" "\<forall>i<totalChunks f. cs (chunkKey fid i) \<noteq> None"
  shows "assemble cs fid f =
    Inr \<lparr>data = concat (map (\<lambda>i. the (cs (chunkKey fid i))) [0..<totalChunks f]),
         mimeType_d = mimeType f, filename_d = filename f\<rparr>"
proof -
  have "collect_parts cs fid [0..<totalChunks f] []
      = Inr ([] @ map (\<lambda>i. the (cs (chunkKey fid i))) [0..<totalChunks f])"
    using assms(2) by (intro collect_parts_all) simp
  moreover have "[0..<totalChunks f] \<noteq> []"
    using assms(1) by simp
  ultimately show ?thesis
    by (simp add: assemble_def)
qed

lemma assemble_missing:
  assumes "k < totalChunks f" "cs (chunkKey fid k) = None" "\<forall>j<k. cs (chunkKey fid j) \<noteq> None"
  shows "assemble cs fid f = Inl (MissingChunk k)"
proof -
  have "collect_parts cs fid ([0..<k] @ k # [Suc k..<totalChunks f]) [] = Inl (MissingChunk k)"
    using assms(2,3) by (intro collect_parts_Inl) simp_all
  then show ?thesis
    using upt_split [OF assms(1)] by (simp add: assemble_def)
qed

lemma uploadAll_data:
  assumes "files s fid = Some f" "requireSession s tok = Inr user" "owner_or_elevated user f"
  shows "\<exists>s1. uploadAll s tok fid ups = Inr s1 \<and> files s1 = files s \<and> users s1 = users s
      \<and> sessions s1 = sessions s \<and> shareTokens s1 = shareTokens s
      \<and> (\<forall>j. chunks s1 (chunkKey fid j) =
               (case map_of (rev ups) j of Some d \<Rightarrow> Some d | None \<Rightarrow> chunks s (chunkKey fid j)))"
  using assms
proof (induction ups arbitrary: s)
  case Nil
  then show ?case by simp
next
  case (Cons p ups)
  obtain i d where p: "p = (i, d)" by (cases p)
  let ?s = "s\<lparr>chunks := (chunks s)(chunkKey fid i \<mapsto> d)\<rparr>"
  have up: "uploadChunk s tok fid i d = Inr (length (filter (\<lambda>j. j = i \<or> chunks s (chunkKey fid j) \<noteq> None) [0..<totalChunks f]), ?s)"
    by (rule uploadChunk_ok [OF Cons.prems])
  have "files ?s fid = Some f" "requireSession ?s tok = Inr user"
    using Cons.prems by simp_all
  from Cons.IH [OF this Cons.prems(3)] obtain s1 where
    s1: "uploadAll ?s tok fid ups = Inr s1" "files s1 = files ?s" "users s1 = users ?s"
      "sessions s1 = sessions ?s" "shareTokens s1 = shareTokens ?s"
      "\<forall>j. chunks s1 (chunkKey fid j) =
               (case map_of (rev ups) j of Some d \<Rightarrow> Some d | None \<Rightarrow> chunks ?s (chunkKey fid j))"
    by blast
  have "uploadAll s tok fid (p # ups) = Inr s1"
    using up s1(1) by (simp add: p)
  moreover have "\<forall>j. chunks s1 (chunkKey fid j) =
       (case map_of (rev (p # ups)) j of Some d \<Rightarrow> Some d | None \<Rightarrow> chunks s (chunkKey fid j))"
    using s1(6) by (auto simp: p map_add_def split: option.splits)
  ultimately show ?case using s1(2-5) by simp
qed

text \<open>
  Claim C4. For a file of at least one chunk whose indices below \<open>totalChunks\<close> all have
  a chunk, \<open>downloadFile\<close> by a caller with access (a share token bound to the file, or a
  session of the owner, Master or Staff) returns the stored blobs concatenated in
  ascending index order, with the file's \<open>mimeType\<close> and \<open>filename\<close>. After uploading
  the indices \<open>0..N-1\<close> in any order, the data is the concatenation, in index order, of
  the blob last sent for each index.
\<close>

theorem downloadFile_assembly:
  assumes "files s fid = Some f" "1 \<le> totalChunks f"
    and "(\<exists>st. shareTok = Some st \<and> shareTokens s st = Some fid)
       \<or> (\<exists>t user. tok = Some t \<and> requireSession s t = Inr user \<and> owner_or_elevated user f)"
  shows "((\<forall>i<totalChunks f. chunks s (chunkKey fid i) \<noteq> None)
          \<longrightarrow> downloadFile s fid tok shareTok =
                Inr \<lparr>data = concat (map (\<lambda>i. the (chunks s (chunkKey fid i))) [0..<totalChunks f]),
                     mimeType_d = mimeType f, filename_d = filename f\<rparr>)
       \<and> (requireSession s upTok = Inr upUser \<and> owner_or_elevated upUser f
            \<and> set (map fst ups) = {0..<totalChunks f}
          \<longrightarrow> (\<exists>s1. uploadAll s upTok fid ups = Inr s1
                 \<and> downloadFile s1 fid tok shareTok =
                     Inr \<lparr>data = concat (map (\<lambda>i. the (map_of (rev ups) i)) [0..<totalChunks f]),
                          mimeType_d = mimeType f, filename_d = filename f\<rparr>))"
proof -
  have dl: "downloadFile s' fid tok shareTok = assemble (chunks s') fid f"
    if "files s' = files s" "users s' = users s" "sessions s' = sessions s"
      "shareTokens s' = shareTokens s" for s'
  proof (cases "\<exists>st. shareTok = Some st \<and> shareTokens s st = Some fid")
    case True
    then show ?thesis
      using downloadFile_share [of s' fid f _ tok] assms(1) that by auto
  next
    case False
    with assms(3) obtain t user where
      t: "tok = Some t" "requireSession s t = Inr user" "owner_or_elevated user f"
      by blast
    have "requireSession s' t = Inr user"
      using t(2) requireSession_cong [of s' s t] that by simp
    moreover have "shareTok = None \<or> (\<exists>st. shareTok = Some st \<and> shareTokens s' st \<noteq> Some fid)"
      using False that(4) by (cases shareTok) auto
    moreover have "files s' fid = Some f"
      using assms(1) that(1) by simp
    ultimately show ?thesis
      using downloadFile_session [of s' fid f shareTok tok] t by simp
  qed
  have 1: "downloadFile s fid tok shareTok =
                Inr \<lparr>data = concat (map (\<lambda>i. the (chunks s (chunkKey fid i))) [0..<totalChunks f]),
                     mimeType_d = mimeType f, filename_d = filename f\<rparr>"
    if "\<forall>i<totalChunks f. chunks s (chunkKey fid i) \<noteq> None"
    using dl [of s] assemble_all [OF assms(2) that] by simp
  have 2: "\<exists>s1. uploadAll s upTok fid ups = Inr s1
                 \<and> downloadFile s1 fid tok shareTok =
                     Inr \<lparr>data = concat (map (\<lambda>i. the (map_of (rev ups) i)) [0..<totalChunks f]),
                          mimeType_d = mimeType f, filename_d = filename f\<rparr>"
    if a: "requireSession s upTok = Inr upUser \<and> owner_or_elevated upUser f
            \<and> set (map fst ups) = {0..<totalChunks f}"
  proof -
    from a uploadAll_data [OF assms(1), of upTok upUser ups] obtain s1 where
      s1: "uploadAll s upTok fid ups = Inr s1" "files s1 = files s" "users s1 = users s"
        "sessions s1 = sessions s" "shareTokens s1 = shareTokens s"
        "\<forall>j. chunks s1 (chunkKey fid j) =
               (case map_of (rev ups) j of Some d \<Rightarrow> Some d | None \<Rightarrow> chunks s (chunkKey fid j))"
      by blast
    have dom: "map_of (rev ups) j \<noteq> None" if "j < totalChunks f" for j
    proof -
      from that a have "j \<in> fst ` set (rev ups)" by auto
      then show ?thesis by (simp add: map_of_eq_None_iff)
    qed
    have val: "chunks s1 (chunkKey fid j) = Some (the (map_of (rev ups) j))"
      if "j < totalChunks f" for j
      using dom [OF that] s1(6) by (auto split: option.splits)
    then have all: "\<forall>i<totalChunks f. chunks s1 (chunkKey fid i) \<noteq> None"
      by simp
    have eq: "map (\<lambda>i. the (chunks s1 (chunkKey fid i))) [0..<totalChunks f]
        = map (\<lambda>i. the (map_of (rev ups) i)) [0..<totalChunks f]"
      using val by simp
    have "downloadFile s1 fid tok shareTok =
        Inr \<lparr>data = concat (map (\<lambda>i. the (chunks s1 (chunkKey fid i))) [0..<totalChunks f]),
             mimeType_d = mimeType f, filename_d = filename f\<rparr>"
      using dl [OF s1(2-5)] assemble_all [OF assms(2) all] by simp
    then have "downloadFile s1 fid tok shareTok =
        Inr \<lparr>data = concat (map (\<lambda>i. the (map_of (rev ups) i)) [0..<totalChunks f]),
             mimeType_d = mimeType f, filename_d = filename f\<rparr>"
      by (simp only: eq)
    with s1(1) show ?thesis by blast
  qed
  from 1 2 show ?thesis by blast
qed

lemma is_Unauthorized_simps [simp]:
  "is_Unauthorized InvalidSession" "is_Unauthorized SessionUserNotFound"
  "is_Unauthorized NotFileOwner" "is_Unauthorized NoCredentials" "is_Unauthorized UnauthorizedBare"
  "\<not> is_Unauthorized (MissingChunk k)" "\<not> is_Unauthorized NoChunksFound"
  "\<not> is_Unauthorized FileNotFound" "\<not> is_Unauthorized QuotaExceeded"
  "\<not> is_Unauthorized ArithmeticOverflow"
  by (simp_all add: is_Unauthorized_def)

lemma requireSession_Inl: "requireSession s t = Inl e \<Longrightarrow> is_Unauthorized e"
  by (auto simp: requireSession_def split: option.splits)

lemma assemble_not_Unauthorized: "assemble cs fid f = Inl e \<Longrightarrow> \<not> is_Unauthorized e"
proof -
  have "collect_parts cs fid is parts = Inl e \<Longrightarrow> \<not> is_Unauthorized e" for "is" parts
    by (induction "is" arbitrary: parts) (auto split: option.splits)
  then show "assemble cs fid f = Inl e \<Longrightarrow> \<not> is_Unauthorized e"
    by (auto simp: assemble_def split: sum.splits if_splits)
qed

lemma deleteFile_ok:
  assumes "files s fid = Some f" "requireSession s tok = Inr user" "owner_or_elevated user f"
  shows "deleteFile s tok fid =
    Inr ((), s\<lparr>chunks := remove_chunks (chunks s) fid [0..<totalChunks f],
               shareTokens := (case shareToken f of
                                 Some st \<Rightarrow> (shareTokens s)(st := None)
                               | None \<Rightarrow> shareTokens s),
               files := (files s)(fid := None),
               users := (case users s (owner f) of
                           None \<Rightarrow> users s
                         | Some own \<Rightarrow> (users s)(owner f \<mapsto>
                             own\<lparr>usedBytes := (if usedBytes own \<ge> totalSize f
                                                 then usedBytes own - totalSize f else 0)\<rparr>))\<rparr>)"
  using assms
  by (simp add: deleteFile_def owner_or_elevated_def Let_def split: option.splits)

lemma generateShareLink_ok:
  assumes "files s fid = Some f" "requireSession s tok = Inr user" "owner_or_elevated user f"
  shows "generateShareLink s now tok fid =
    (case shareToken f of
       Some st \<Rightarrow> Inr (st, s)
     | None \<Rightarrow>
         Inr (createToken now (''share'' @ nat32_toText fid @ int_toText now),
              s\<lparr>files := (files s)(fid \<mapsto> f\<lparr>shareToken :=
                            Some (createToken now (''share'' @ nat32_toText fid @ int_toText now))\<rparr>),
                shareTokens := (shareTokens s)
                  (createToken now (''share'' @ nat32_toText fid @ int_toText now) \<mapsto> fid)\<rparr>))"
  using assms
  by (simp add: generateShareLink_def owner_or_elevated_def Let_def split: option.splits)

lemma not_owner_traps:
  assumes "files s fid = Some f" "requireSession s tok = Inr user" "\<not> owner_or_elevated user f"
  shows "uploadChunk s tok fid i d = Inl NotFileOwner"
    and "finalizeUpload s tok fid = Inl NotFileOwner"
    and "deleteFile s tok fid = Inl NotFileOwner"
    and "generateShareLink s now tok fid = Inl NotFileOwner"
  using assms
  by (simp_all add: uploadChunk_def finalizeUpload_def deleteFile_def generateShareLink_def
      owner_or_elevated_def)

subsection \<open>The shape of share tokens\<close>

lemma nat32_toText_inj: "nat32_toText v = nat32_toText w \<Longrightarrow> v = w"
  by (auto simp: nat32_toText_def word_unat_eq_iff dest: nat_toText_inj)

lemma share_token_fileId:
  assumes "length ts = length ts'"
    and "''share'' @ nat32_toText fid @ ts @ ts @ ts = ''share'' @ nat32_toText fid' @ ts' @ ts' @ ts'"
  shows "fid = fid'"
proof -
  from assms(2) have e: "nat32_toText fid @ (ts @ ts @ ts) = nat32_toText fid' @ (ts' @ ts' @ ts')"
    by simp
  have "length (ts @ ts @ ts) = length (ts' @ ts' @ ts')"
    using assms(1) by simp
  with e have "nat32_toText fid = nat32_toText fid'"
    by (metis append_eq_append_conv)
  then show ?thesis by (rule nat32_toText_inj)
qed

lemma share_tokens_wf_other:
  assumes "share_tokens_wf L s" "length ts = L" "fid' \<noteq> fid"
  shows "shareTokens s (''share'' @ nat32_toText fid' @ ts @ ts @ ts) \<noteq> Some fid"
proof
  assume "shareTokens s (''share'' @ nat32_toText fid' @ ts @ ts @ ts) = Some fid"
  with assms(1) obtain ts' where "length ts' = L"
    "''share'' @ nat32_toText fid' @ ts @ ts @ ts = ''share'' @ nat32_toText fid @ ts' @ ts' @ ts'"
    unfolding share_tokens_wf_def by blast
  with assms(2) have "fid' = fid"
    using share_token_fileId [of ts ts' fid' fid] by simp
  with assms(3) show False by simp
qed

lemma share_tokens_wf_init: "share_tokens_wf L init_state"
  by (simp add: share_tokens_wf_def init_state_def)

lemma share_tokens_wf_exec:
  assumes "share_tokens_wf L s" "exec s now c = Inr s'" "length (int_toText now) = L"
  shows "share_tokens_wf L s'"
proof (cases c)
  case (GenerateShareLink t fid)
  with assms(2) obtain st where g: "generateShareLink s now t fid = Inr (st, s')"
    by (cases "generateShareLink s now t fid") auto
  then obtain f where f: "files s fid = Some f"
    by (auto simp: generateShareLink_def split: sum.splits option.splits)
  show ?thesis
  proof (cases "shareToken f")
    case None
    with g f have "shareTokens s' = (shareTokens s)
        (''share'' @ nat32_toText fid @ int_toText now @ int_toText now @ int_toText now \<mapsto> fid)"
      by (auto simp: generateShareLink_def createToken_def Let_def
          split: sum.splits option.splits if_splits)
    with assms(1,3) show ?thesis
      by (auto simp: share_tokens_wf_def)
  next
    case (Some a)
    with g f have "s' = s"
      by (auto simp: generateShareLink_def split: sum.splits option.splits if_splits)
    with assms(1) show ?thesis by simp
  qed
next
  case (DeleteFile t fid)
  with assms(2) have "\<forall>st fid'. shareTokens s' st = Some fid' \<longrightarrow> shareTokens s st = Some fid'"
    by (auto simp: deleteFile_def Let_def split: sum.splits option.splits if_splits)
  with assms(1) show ?thesis
    unfolding share_tokens_wf_def by blast
next
  case (InitUpload t fn mt sz n)
  with assms(2) have "shareTokens s' = shareTokens s"
    by (auto simp: initUpload_def nextFileId_def Let_def split: sum.splits option.splits if_splits)
  with assms(1) show ?thesis by (simp add: share_tokens_wf_def)
next
  case (Login u p)
  with assms(2) have "shareTokens s' = shareTokens s"
    by (auto simp: login_def Let_def split: option.splits if_splits)
  with assms(1) show ?thesis by (simp add: share_tokens_wf_def)
next
  case (Logout t)
  with assms(2) have "shareTokens s' = shareTokens s"
    by (auto simp: logout_def)
  with assms(1) show ?thesis by (simp add: share_tokens_wf_def)
next
  case (RegisterUser u p)
  with assms(2) have "shareTokens s' = shareTokens s"
    by (auto simp: registerUser_def nextUserId_def Let_def split: option.splits if_splits sum.splits)
  with assms(1) show ?thesis by (simp add: share_tokens_wf_def)
next
  case (CreateUser t u p r)
  with assms(2) have "shareTokens s' = shareTokens s"
    by (auto simp: createUser_def nextUserId_def Let_def split: option.splits if_splits sum.splits)
  with assms(1) show ?thesis by (simp add: share_tokens_wf_def)
next
  case (DeleteUser t uid)
  with assms(2) have "shareTokens s' = shareTokens s"
    by (auto simp: deleteUser_def Let_def split: option.splits if_splits sum.splits)
  with assms(1) show ?thesis by (simp add: share_tokens_wf_def)
next
  case (UpdateUserRole t uid r)
  with assms(2) have "shareTokens s' = shareTokens s"
    by (auto simp: updateUserRole_def split: option.splits if_splits sum.splits)
  with assms(1) show ?thesis by (simp add: share_tokens_wf_def)
next
  case (UpdateUserGbLimit t uid g)
  with assms(2) have "shareTokens s' = shareTokens s"
    by (auto simp: updateUserGbLimit_def split: option.splits if_splits sum.splits)
  with assms(1) show ?thesis by (simp add: share_tokens_wf_def)
next
  case (UploadChunk t fid i d)
  with assms(2) have "shareTokens s' = shareTokens s"
    by (auto simp: uploadChunk_def Let_def split: option.splits if_splits sum.splits)
  with assms(1) show ?thesis by (simp add: share_tokens_wf_def)
next
  case (FinalizeUpload t fid)
  with assms(2) have "shareTokens s' = shareTokens s"
    by (auto simp: finalizeUpload_def Let_def split: option.splits if_splits sum.splits)
  with assms(1) show ?thesis by (simp add: share_tokens_wf_def)
qed

lemma share_tokens_wf_run:
  assumes "share_tokens_wf L s" "\<forall>(now, c)\<in>set cs. length (int_toText now) = L"
  shows "share_tokens_wf L (run s cs)"
  using assms
proof (induction cs arbitrary: s)
  case Nil
  then show ?case by simp
next
  case (Cons p cs)
  obtain now c where p: "p = (now, c)" by (cases p)
  have "share_tokens_wf L (commit s (exec s now c))"
  proof (cases "exec s now c")
    case (Inl e)
    with Cons.prems(1) show ?thesis by (simp add: commit_def)
  next
    case (Inr s')
    with Cons.prems share_tokens_wf_exec [of L s now c s'] show ?thesis
      by (simp add: commit_def p)
  qed
  with Cons show ?case by (simp add: p)
qed

lemma share_tokens_wf_from_init:
  "\<forall>(now, c)\<in>set cs. length (int_toText now) = L \<Longrightarrow> share_tokens_wf L (run init_state cs)"
  by (rule share_tokens_wf_run [OF share_tokens_wf_init])

subsection \<open>Access to a download\<close>

text \<open>
  Claim C8, as amended. For an existing file \<open>downloadFile\<close> first looks at the share token: when the
  share-token map binds it to this file, the file is assembled whatever the session
  token is. Otherwise a session is required: without one, with an invalid one or with
  one of a user who is neither the owner nor Master nor Staff the call traps with an
  \<open>Unauthorized\<close> message, and for the owner, Master or Staff the file is assembled.
  Assembling never traps with \<open>Unauthorized\<close>. A token bound to another file, alone,
  gives \<open>Unauthorized\<close>; a token just generated for this file opens this file and no other.
  In every state whose bound share tokens all have the shape \<open>generateShareLink\<close> gives
  them with clock texts of one length \<open>L\<close> (so after any calls at clocks of that text
  length), a token of that shape for another file does not open this file.
\<close>

theorem downloadFile_authorization:
  assumes "files s fid = Some f"
  shows "(shareTokens s st = Some fid
            \<longrightarrow> downloadFile s fid tok (Some st) = assemble (chunks s) fid f)
       \<and> (shareTok = None \<or> (\<exists>st'. shareTok = Some st' \<and> shareTokens s st' \<noteq> Some fid)
            \<longrightarrow> downloadFile s fid None shareTok = Inl NoCredentials
              \<and> (requireSession s t = Inl e
                   \<longrightarrow> downloadFile s fid (Some t) shareTok = Inl e \<and> is_Unauthorized e)
              \<and> (requireSession s t = Inr user \<and> owner_or_elevated user f
                   \<longrightarrow> downloadFile s fid (Some t) shareTok = assemble (chunks s) fid f)
              \<and> (requireSession s t = Inr user \<and> \<not> owner_or_elevated user f
                   \<longrightarrow> downloadFile s fid (Some t) shareTok = Inl NotFileOwner))
       \<and> is_Unauthorized NoCredentials \<and> is_Unauthorized NotFileOwner
       \<and> (assemble (chunks s) fid f = Inl e' \<longrightarrow> \<not> is_Unauthorized e')
       \<and> (shareTokens s st = Some fid' \<and> fid' \<noteq> fid
            \<longrightarrow> downloadFile s fid None (Some st) = Inl NoCredentials)
       \<and> (requireSession s t = Inr user \<and> owner_or_elevated user f \<and> shareToken f = None
            \<and> generateShareLink s now t fid = Inr (st, s')
            \<longrightarrow> downloadFile s' fid None (Some st) = assemble (chunks s) fid (f\<lparr>shareToken := Some st\<rparr>)
              \<and> (files s' fid' = Some f' \<and> fid' \<noteq> fid
                   \<longrightarrow> downloadFile s' fid' None (Some st) = Inl NoCredentials)
              \<and> (files s' fid' = None
                   \<longrightarrow> downloadFile s' fid' None (Some st) = Inl FileNotFound))
       \<and> (share_tokens_wf L s \<and> length ts = L \<and> fid' \<noteq> fid
            \<longrightarrow> downloadFile s fid None (Some (''share'' @ nat32_toText fid' @ ts @ ts @ ts))
                  = Inl NoCredentials)"
proof (intro conjI impI)
  assume "shareTokens s st = Some fid"
  then show "downloadFile s fid tok (Some st) = assemble (chunks s) fid f"
    by (rule downloadFile_share [OF assms])
next
  assume a: "shareTok = None \<or> (\<exists>st'. shareTok = Some st' \<and> shareTokens s st' \<noteq> Some fid)"
  note d = downloadFile_session [OF assms a]
  show "downloadFile s fid None shareTok = Inl NoCredentials"
    using d [of None] by simp
  show "downloadFile s fid (Some t) shareTok = Inl e" if "requireSession s t = Inl e"
    using d [of "Some t"] that by simp
  show "is_Unauthorized e" if "requireSession s t = Inl e"
    using that by (rule requireSession_Inl)
  show "downloadFile s fid (Some t) shareTok = assemble (chunks s) fid f"
    if "requireSession s t = Inr user \<and> owner_or_elevated user f"
    using d [of "Some t"] that by simp
  show "downloadFile s fid (Some t) shareTok = Inl NotFileOwner"
    if "requireSession s t = Inr user \<and> \<not> owner_or_elevated user f"
    using d [of "Some t"] that by simp
next
  show "is_Unauthorized NoCredentials" "is_Unauthorized NotFileOwner" by simp_all
next
  assume "assemble (chunks s) fid f = Inl e'"
  then show "\<not> is_Unauthorized e'" by (rule assemble_not_Unauthorized)
next
  assume "shareTokens s st = Some fid' \<and> fid' \<noteq> fid"
  then have "Some st = None \<or> (\<exists>st'. Some st = Some st' \<and> shareTokens s st' \<noteq> Some fid)"
    by simp
  from downloadFile_session [OF assms this, of None]
  show "downloadFile s fid None (Some st) = Inl NoCredentials" by simp
next
  assume a: "requireSession s t = Inr user \<and> owner_or_elevated user f \<and> shareToken f = None
            \<and> generateShareLink s now t fid = Inr (st, s')"
  then have s': "files s' = (files s)(fid \<mapsto> f\<lparr>shareToken := Some st\<rparr>)"
      "shareTokens s' st = Some fid" "chunks s' = chunks s"
    using generateShareLink_ok [OF assms, of t user now] by auto
  from downloadFile_share [of s' fid "f\<lparr>shareToken := Some st\<rparr>" st None] s'
  show "downloadFile s' fid None (Some st) = assemble (chunks s) fid (f\<lparr>shareToken := Some st\<rparr>)"
    by simp
  show "downloadFile s' fid' None (Some st) = Inl NoCredentials"
    if b: "files s' fid' = Some f' \<and> fid' \<noteq> fid"
  proof -
    have "Some st = None \<or> (\<exists>st'. Some st = Some st' \<and> shareTokens s' st' \<noteq> Some fid')"
      using s'(2) b by auto
    from downloadFile_session [OF _ this, of f' None] b show ?thesis by simp
  qed
  show "downloadFile s' fid' None (Some st) = Inl FileNotFound" if "files s' fid' = None"
    using that by (simp add: downloadFile_def)
next
  assume "share_tokens_wf L s \<and> length ts = L \<and> fid' \<noteq> fid"
  then have "shareTokens s (''share'' @ nat32_toText fid' @ ts @ ts @ ts) \<noteq> Some fid"
    using share_tokens_wf_other by blast
  then have "Some (''share'' @ nat32_toText fid' @ ts @ ts @ ts) = None
      \<or> (\<exists>st'. Some (''share'' @ nat32_toText fid' @ ts @ ts @ ts) = Some st'
            \<and> shareTokens s st' \<noteq> Some fid)"
    by simp
  from downloadFile_session [OF assms this, of None]
  show "downloadFile s fid None (Some (''share'' @ nat32_toText fid' @ ts @ ts @ ts))
      = Inl NoCredentials"
    by simp
qed

text \<open>
  Claim C9. For an existing file and a caller with a valid session who is neither the
  owner nor Master nor Staff, \<open>uploadChunk\<close>, \<open>finalizeUpload\<close>, \<open>deleteFile\<close>,
  \<open>generateShareLink\<close> and \<open>downloadFile\<close> without a share token bound to the file trap
  with the \<open>Unauthorized\<close> message \<open>NotFileOwner\<close>, and the state stays as it was. For the
  owner, Master or Staff none of the five traps with an \<open>Unauthorized\<close> message.
\<close>

theorem file_operations_authorization:
  assumes "files s fid = Some f" "requireSession s tok = Inr user"
  shows "(\<not> owner_or_elevated user f \<longrightarrow>
            uploadChunk s tok fid i d = Inl NotFileOwner
          \<and> finalizeUpload s tok fid = Inl NotFileOwner
          \<and> deleteFile s tok fid = Inl NotFileOwner
          \<and> generateShareLink s now tok fid = Inl NotFileOwner
          \<and> (shareTok = None \<or> (\<exists>st. shareTok = Some st \<and> shareTokens s st \<noteq> Some fid)
               \<longrightarrow> downloadFile s fid (Some tok) shareTok = Inl NotFileOwner)
          \<and> is_Unauthorized NotFileOwner
          \<and> commit s (exec s now (UploadChunk tok fid i d)) = s
          \<and> commit s (exec s now (FinalizeUpload tok fid)) = s
          \<and> commit s (exec s now (DeleteFile tok fid)) = s
          \<and> commit s (exec s now (GenerateShareLink tok fid)) = s)
       \<and> (owner_or_elevated user f \<longrightarrow>
            (\<exists>c s'. uploadChunk s tok fid i d = Inr (c, s'))
          \<and> (\<forall>e. finalizeUpload s tok fid = Inl e \<longrightarrow> \<not> is_Unauthorized e)
          \<and> (\<exists>s'. deleteFile s tok fid = Inr ((), s'))
          \<and> (\<exists>st s'. generateShareLink s now tok fid = Inr (st, s'))
          \<and> (\<forall>e. downloadFile s fid (Some tok) shareTok = Inl e \<longrightarrow> \<not> is_Unauthorized e))"
proof (intro conjI impI)
  assume n: "\<not> owner_or_elevated user f"
  note t = not_owner_traps [OF assms n]
  show "uploadChunk s tok fid i d = Inl NotFileOwner" by (rule t)
  show "finalizeUpload s tok fid = Inl NotFileOwner" by (rule t)
  show "deleteFile s tok fid = Inl NotFileOwner" by (rule t)
  show "generateShareLink s now tok fid = Inl NotFileOwner" by (rule t)
  show "is_Unauthorized NotFileOwner" by simp
  show "commit s (exec s now (UploadChunk tok fid i d)) = s" by (simp add: t commit_def)
  show "commit s (exec s now (FinalizeUpload tok fid)) = s" by (simp add: t commit_def)
  show "commit s (exec s now (DeleteFile tok fid)) = s" by (simp add: t commit_def)
  show "commit s (exec s now (GenerateShareLink tok fid)) = s" by (simp add: t commit_def)
  show "downloadFile s fid (Some tok) shareTok = Inl NotFileOwner"
    if "shareTok = None \<or> (\<exists>st. shareTok = Some st \<and> shareTokens s st \<noteq> Some fid)"
    using downloadFile_session [OF assms(1) that, of "Some tok"] assms(2) n by simp
next
  assume a: "owner_or_elevated user f"
  show "\<exists>c s'. uploadChunk s tok fid i d = Inr (c, s')"
    using uploadChunk_ok [OF assms a] by blast
  show "\<forall>e. finalizeUpload s tok fid = Inl e \<longrightarrow> \<not> is_Unauthorized e"
  proof (intro allI impI)
    fix e assume e: "finalizeUpload s tok fid = Inl e"
    have "scan_chunks cs fid is = Inl e \<Longrightarrow> \<not> is_Unauthorized e" for cs "is"
      by (induction "is") (auto split: option.splits)
    with e assms a show "\<not> is_Unauthorized e"
      by (auto simp: finalizeUpload_def owner_or_elevated_def Let_def split: sum.splits option.splits)
  qed
  show "\<exists>s'. deleteFile s tok fid = Inr ((), s')"
    using deleteFile_ok [OF assms a] by blast
  show "\<exists>st s'. generateShareLink s now tok fid = Inr (st, s')"
    using generateShareLink_ok [OF assms a, of now] by (cases "shareToken f") auto
  show "\<forall>e. downloadFile s fid (Some tok) shareTok = Inl e \<longrightarrow> \<not> is_Unauthorized e"
  proof (cases "shareTok = None \<or> (\<exists>st. shareTok = Some st \<and> shareTokens s st \<noteq> Some fid)")
    case True
    from downloadFile_session [OF assms(1) True, of "Some tok"] assms(2) a
    show ?thesis by (auto dest: assemble_not_Unauthorized)
  next
    case False
    then obtain st where "shareTok = Some st" "shareTokens s st = Some fid"
      by (cases shareTok) auto
    with downloadFile_share [OF assms(1), of st "Some tok"]
    show ?thesis by (auto dest: assemble_not_Unauthorized)
  qed
qed

lemma owner_or_elevated_upd [simp]:
  "owner_or_elevated (u\<lparr>usedBytes := x\<rparr>) f = owner_or_elevated u f"
  "owner_or_elevated u (f\<lparr>status := y\<rparr>) = owner_or_elevated u f"
  by (simp_all add: owner_or_elevated_def)

lemma requireSession_credit:
  assumes "requireSession s tok = Inr user" "users s k = Some own"
    and "users s' = (users s)(k \<mapsto> own\<lparr>usedBytes := x\<rparr>)" "sessions s' = sessions s"
  shows "requireSession s' tok = Inr (if requireSession s tok = Inr own \<and> (\<exists>se. sessions s tok = Some se \<and> userId se = k)
                                      then own\<lparr>usedBytes := x\<rparr> else user)"
  using assms by (auto simp: requireSession_def split: option.splits)

lemma requireSession_credit_auth:
  assumes "requireSession s tok = Inr user" "users s k = Some own"
    and "users s' = (users s)(k \<mapsto> own\<lparr>usedBytes := x\<rparr>)" "sessions s' = sessions s"
    and "owner_or_elevated user f"
  shows "\<exists>user'. requireSession s' tok = Inr user' \<and> owner_or_elevated user' f"
proof (cases "requireSession s tok = Inr own \<and> (\<exists>se. sessions s tok = Some se \<and> userId se = k)")
  case True
  with assms(1) have "user = own" by simp
  with requireSession_credit [OF assms(1-4)] True assms(5) show ?thesis by simp
next
  case False
  with requireSession_credit [OF assms(1-4)] assms(5) show ?thesis by auto
qed

text \<open>
  Claim C6. When all chunks of a file are present, two calls of \<open>finalizeUpload\<close> in a
  row by a caller with access both return, and the owner's \<open>usedBytes\<close> grows by
  \<open>totalSize\<close> each time, by twice \<open>totalSize\<close> in total.
\<close>

theorem finalizeUpload_not_idempotent:
  assumes "files s fid = Some f" "requireSession s tok = Inr user" "owner_or_elevated user f"
    and "\<forall>i<totalChunks f. chunks s (chunkKey fid i) \<noteq> None"
  shows "\<exists>s1 s2. finalizeUpload s tok fid = Inr ((), s1)
           \<and> finalizeUpload s1 tok fid = Inr ((), s2)
           \<and> (users s (owner f) = Some own
                \<longrightarrow> users s1 (owner f) = Some (own\<lparr>usedBytes := usedBytes own + totalSize f\<rparr>)
                  \<and> users s2 (owner f) = Some (own\<lparr>usedBytes := usedBytes own + 2 * totalSize f\<rparr>))"
proof (cases "users s (owner f)")
  case None
  let ?s1 = "s\<lparr>files := (files s)(fid \<mapsto> f\<lparr>status := Complete\<rparr>)\<rparr>"
  have 1: "finalizeUpload s tok fid = Inr ((), ?s1)"
    using finalizeUpload_ok [OF assms] None by simp
  have "files ?s1 fid = Some (f\<lparr>status := Complete\<rparr>)" "requireSession ?s1 tok = Inr user"
    "owner_or_elevated user (f\<lparr>status := Complete\<rparr>)"
    "\<forall>i<totalChunks (f\<lparr>status := Complete\<rparr>). chunks ?s1 (chunkKey fid i) \<noteq> None"
    using assms requireSession_cong [of ?s1 s tok] by simp_all
  from finalizeUpload_ok [OF this] obtain s2 where "finalizeUpload ?s1 tok fid = Inr ((), s2)"
    by blast
  with 1 None show ?thesis by auto
next
  case (Some o1)
  let ?f = "f\<lparr>status := Complete\<rparr>"
  let ?o1 = "o1\<lparr>usedBytes := usedBytes o1 + totalSize f\<rparr>"
  let ?s1 = "s\<lparr>files := (files s)(fid \<mapsto> ?f), users := (users s)(owner f \<mapsto> ?o1)\<rparr>"
  have 1: "finalizeUpload s tok fid = Inr ((), ?s1)"
    using finalizeUpload_ok [OF assms] Some by simp
  obtain user' where u: "requireSession ?s1 tok = Inr user'" "owner_or_elevated user' f"
    using requireSession_credit_auth [OF assms(2) Some _ _ assms(3), of ?s1] by auto
  have "files ?s1 fid = Some ?f" "owner_or_elevated user' ?f"
    "\<forall>i<totalChunks ?f. chunks ?s1 (chunkKey fid i) \<noteq> None"
    using assms u by simp_all
  from finalizeUpload_ok [OF this(1) u(1) this(2,3)]
  have 2: "finalizeUpload ?s1 tok fid =
     Inr ((), ?s1\<lparr>files := (files ?s1)(fid \<mapsto> ?f\<lparr>status := Complete\<rparr>),
                 users := (users ?s1)(owner f \<mapsto> ?o1\<lparr>usedBytes := usedBytes ?o1 + totalSize f\<rparr>)\<rparr>)"
    by simp
  show ?thesis
    using 1 2 Some by auto
qed

text \<open>
  Claim C7. For an existing file of any status, \<open>deleteFile\<close> by a caller with access
  returns; afterwards no index below \<open>totalChunks\<close> has a chunk, the file's share token
  is unbound, the file record is gone, the owner's \<open>usedBytes\<close> is lowered by
  \<open>totalSize\<close> and not below 0, and a second \<open>deleteFile\<close> traps with \<open>FileNotFound\<close>.
\<close>

theorem deleteFile_reclaims:
  assumes "files s fid = Some f" "requireSession s tok = Inr user" "owner_or_elevated user f"
  shows "\<exists>s'. deleteFile s tok fid = Inr ((), s')
           \<and> (\<forall>i<totalChunks f. chunks s' (chunkKey fid i) = None)
           \<and> (shareToken f = Some st \<longrightarrow> shareTokens s' st = None)
           \<and> files s' fid = None
           \<and> (users s (owner f) = Some own
                \<longrightarrow> users s' (owner f) =
                      Some (own\<lparr>usedBytes := (if totalSize f \<le> usedBytes own
                                                then usedBytes own - totalSize f else 0)\<rparr>))
           \<and> deleteFile s' tok fid = Inl FileNotFound"
proof -
  let ?s' = "s\<lparr>chunks := remove_chunks (chunks s) fid [0..<totalChunks f],
               shareTokens := (case shareToken f of
                                 Some st \<Rightarrow> (shareTokens s)(st := None)
                               | None \<Rightarrow> shareTokens s),
               files := (files s)(fid := None),
               users := (case users s (owner f) of
                           None \<Rightarrow> users s
                         | Some own \<Rightarrow> (users s)(owner f \<mapsto>
                             own\<lparr>usedBytes := (if usedBytes own \<ge> totalSize f
                                                 then usedBytes own - totalSize f else 0)\<rparr>))\<rparr>"
  have 1: "deleteFile s tok fid = Inr ((), ?s')"
    by (rule deleteFile_ok [OF assms])
  have 2: "\<forall>i<totalChunks f. chunks ?s' (chunkKey fid i) = None"
    by (simp add: remove_chunks_apply)
  have 3: "shareToken f = Some st \<longrightarrow> shareTokens ?s' st = None"
    by simp
  have 4: "files ?s' fid = None" by simp
  have 5: "users s (owner f) = Some own
                \<longrightarrow> users ?s' (owner f) =
                      Some (own\<lparr>usedBytes := (if totalSize f \<le> usedBytes own
                                                then usedBytes own - totalSize f else 0)\<rparr>)"
    by simp
  have "\<exists>user'. requireSession ?s' tok = Inr user'"
  proof (cases "users s (owner f)")
    case None
    then show ?thesis
      using assms(2) requireSession_cong [of ?s' s tok] by simp
  next
    case (Some o1)
    have "users ?s' = (users s)(owner f \<mapsto> o1\<lparr>usedBytes := usedBytes o1 - totalSize f\<rparr>)"
      "sessions ?s' = sessions s"
      using Some by auto
    from requireSession_credit_auth [OF assms(2) Some this assms(3)]
    show ?thesis by blast
  qed
  then have 6: "deleteFile ?s' tok fid = Inl FileNotFound"
    by (auto simp: deleteFile_def)
  from 1 2 3 4 5 6 show ?thesis by blast
qed

lemma scan_chunks_other:
  "i \<notin> set is \<Longrightarrow> scan_chunks (cs(chunkKey fid i \<mapsto> d)) fid is = scan_chunks cs fid is"
  by (induction "is") (auto split: option.splits)

lemma count_present_other:
  "i \<notin> set is \<Longrightarrow> count_present (cs(chunkKey fid i \<mapsto> d)) fid is c = count_present cs fid is c"
  by (induction "is" arbitrary: c) (auto split: option.splits)

lemma collect_parts_other:
  "i \<notin> set is \<Longrightarrow> collect_parts (cs(chunkKey fid i \<mapsto> d)) fid is parts = collect_parts cs fid is parts"
  by (induction "is" arbitrary: parts) (auto split: option.splits)

text \<open>
  Claim C10. For an index \<open>i \<ge> totalChunks\<close>, \<open>uploadChunk\<close> by a caller with access
  returns and stores the blob under the key of \<open>(fileId, i)\<close>; the count returned is the
  one of the state before, \<open>finalizeUpload\<close> and \<open>downloadFile\<close> give what they gave
  without the blob, and \<open>deleteFile\<close> leaves the blob in the chunk map.
\<close>

theorem chunk_beyond_totalChunks:
  assumes "files s fid = Some f" "requireSession s tok = Inr user" "owner_or_elevated user f"
    and "totalChunks f \<le> i"
  shows "\<exists>s'. uploadChunk s tok fid i d =
                 Inr (count_present (chunks s) fid [0..<totalChunks f] 0, s')
           \<and> s' = s\<lparr>chunks := (chunks s)(chunkKey fid i \<mapsto> d)\<rparr>
           \<and> chunks s' (chunkKey fid i) = Some d
           \<and> finalizeUpload s' tok fid =
               (case finalizeUpload s tok fid of
                  Inl e \<Rightarrow> Inl e
                | Inr (u, t) \<Rightarrow> Inr (u, t\<lparr>chunks := chunks s'\<rparr>))
           \<and> downloadFile s' fid dtok shareTok = downloadFile s fid dtok shareTok
           \<and> (\<exists>t. deleteFile s' tok fid = Inr ((), t) \<and> chunks t (chunkKey fid i) = Some d)"
proof -
  let ?s' = "s\<lparr>chunks := (chunks s)(chunkKey fid i \<mapsto> d)\<rparr>"
  have ni: "i \<notin> set [0..<totalChunks f]"
    using assms(4) by simp
  have 1: "uploadChunk s tok fid i d = Inr (count_present (chunks s) fid [0..<totalChunks f] 0, ?s')"
    using assms(1-3) count_present_other [OF ni]
    by (simp add: uploadChunk_def owner_or_elevated_def)
  have 2: "finalizeUpload ?s' tok fid =
               (case finalizeUpload s tok fid of
                  Inl e \<Rightarrow> Inl e
                | Inr (u, t) \<Rightarrow> Inr (u, t\<lparr>chunks := chunks ?s'\<rparr>))"
    using assms(1-3) scan_chunks_other [OF ni]
    by (auto simp: finalizeUpload_def owner_or_elevated_def Let_def split: sum.splits option.splits)
  have as: "assemble (chunks ?s') fid f = assemble (chunks s) fid f"
    using collect_parts_other [OF ni] by (simp add: assemble_def)
  have 3: "downloadFile ?s' fid dtok shareTok = downloadFile s fid dtok shareTok"
  proof (cases "shareTok = None \<or> (\<exists>st. shareTok = Some st \<and> shareTokens s st \<noteq> Some fid)")
    case True
    then have "shareTok = None \<or> (\<exists>st. shareTok = Some st \<and> shareTokens ?s' st \<noteq> Some fid)"
      by simp
    from downloadFile_session [OF _ this, of f dtok] downloadFile_session [OF assms(1) True, of dtok]
    show ?thesis using assms(1) as by (simp split: option.splits sum.splits)
  next
    case False
    then obtain st where st: "shareTok = Some st" "shareTokens s st = Some fid"
      by (cases shareTok) auto
    from downloadFile_share [of ?s' fid f st dtok] downloadFile_share [OF assms(1) st(2), of dtok]
    show ?thesis using assms(1) st as by simp
  qed
  have f': "files ?s' fid = Some f" and r': "requireSession ?s' tok = Inr user"
    using assms by simp_all
  have "chunkKey fid i \<notin> chunkKey fid ` set [0..<totalChunks f]"
    using ni by auto
  then have 4: "\<exists>t. deleteFile ?s' tok fid = Inr ((), t) \<and> chunks t (chunkKey fid i) = Some d"
    using deleteFile_ok [OF f' r' assms(3)] by (simp add: remove_chunks_apply)
  from 1 2 3 4 show ?thesis by simp
qed

section \<open>The file operations at the concrete states\<close>

lemma upt_3: "[0..<3] = [0, 1, 2]"
  by (simp add: upt_rec)

lemma demo_chunks_simps:
  "demo_chunks (chunkKey 1 0) = Some [1, 2]" "demo_chunks (chunkKey 1 (Suc 0)) = Some [3]"
  "demo_chunks (chunkKey 1 2) = Some [4, 5, 6]"
  by (simp_all add: demo_chunks_def)

lemma demo_chunks_all: "\<forall>i<totalChunks demo_file. chunks demo_full (chunkKey 1 i) \<noteq> None"
proof (intro allI impI)
  fix i assume "i < totalChunks demo_file"
  then have "i = 0 \<or> i = Suc 0 \<or> i = 2" by (auto simp: demo_file_def)
  then show "chunks demo_full (chunkKey 1 i) \<noteq> None"
    by (auto simp: demo_full_def demo_chunks_simps)
qed

lemma demo_full_carol: "requireSession demo_full carol_token = Inr carol"
  by (simp add: demo_full_def demo_state_carol)

lemma carol_not_owner: "\<not> owner_or_elevated carol demo_file"
  by (simp add: owner_or_elevated_def carol_def demo_file_def)

lemma demo_full_master: "requireSession demo_full master_token = Inr masterUser"
  by (simp add: demo_full_def demo_state_master)

lemma master_elevated: "owner_or_elevated masterUser demo_file"
  by (simp add: owner_or_elevated_def masterUser_def)

theorem downloadFile_assembly_witness:
  "files demo_full 1 = Some demo_file \<and> 1 \<le> totalChunks demo_file
   \<and> requireSession demo_full bob_token = Inr bob \<and> owner_or_elevated bob demo_file
   \<and> downloadFile demo_full 1 (Some bob_token) None =
        Inr \<lparr>data = [1, 2, 3, 4, 5, 6], mimeType_d = ''text/plain'', filename_d = ''a.txt''\<rparr>
   \<and> (\<exists>s1. uploadAll demo_state bob_token 1 [(1, [3]), (0, [1, 2]), (2, [4, 5, 6])] = Inr s1
         \<and> downloadFile s1 1 (Some master_token) None =
              Inr \<lparr>data = [1, 2, 3, 4, 5, 6], mimeType_d = ''text/plain'',
                   filename_d = ''a.txt''\<rparr>)"
proof -
  have n: "1 \<le> totalChunks demo_file" by (simp add: demo_file_def)
  have a: "(\<exists>st. (None :: string option) = Some st \<and> shareTokens demo_full st = Some 1)
       \<or> (\<exists>t user. Some bob_token = Some t \<and> requireSession demo_full t = Inr user
             \<and> owner_or_elevated user demo_file)"
    using demo_full_bob bob_owns_demo_file by simp
  have b: "(\<exists>st. (None :: string option) = Some st \<and> shareTokens demo_state st = Some 1)
       \<or> (\<exists>t user. Some master_token = Some t \<and> requireSession demo_state t = Inr user
             \<and> owner_or_elevated user demo_file)"
    using demo_state_master master_elevated by simp
  have s: "{0..<3::nat} = {1, 0, 2}" by auto
  from downloadFile_assembly [OF demo_full_file n a]
  have 1: "downloadFile demo_full 1 (Some bob_token) None =
        Inr \<lparr>data = [1, 2, 3, 4, 5, 6], mimeType_d = ''text/plain'', filename_d = ''a.txt''\<rparr>"
    using demo_chunks_all
    by (simp add: demo_file_def upt_3 demo_full_def demo_chunks_simps)
  from downloadFile_assembly [OF demo_state_file n b,
      of bob_token bob "[(1, [3]), (0, [1, 2]), (2, [4, 5, 6])]"]
  have 2: "\<exists>s1. uploadAll demo_state bob_token 1 [(1, [3]), (0, [1, 2]), (2, [4, 5, 6])] = Inr s1
         \<and> downloadFile s1 1 (Some master_token) None =
              Inr \<lparr>data = [1, 2, 3, 4, 5, 6], mimeType_d = ''text/plain'',
                   filename_d = ''a.txt''\<rparr>"
    using demo_state_bob bob_owns_demo_file
    by (simp add: demo_file_def upt_3 s)
  from 1 2 show ?thesis
    using demo_full_file n demo_full_bob bob_owns_demo_file by simp
qed

lemma demo_shared_file: "files demo_shared 1 = Some (demo_file\<lparr>shareToken := Some ''share1555''\<rparr>)"
  by (simp add: demo_shared_def)

lemma demo_shared_file2: "files demo_shared 2 = Some carol_file"
  by (simp add: demo_shared_def demo_full_def demo_state_def)

lemma demo_shared_token: "shareTokens demo_shared ''share1555'' = Some 1"
  by (simp add: demo_shared_def)

lemma demo_shared_sessions:
  "requireSession demo_shared bob_token = Inr bob"
  "requireSession demo_shared carol_token = Inr carol"
  "requireSession demo_shared master_token = Inr masterUser"
  "requireSession demo_shared ''nope'' = Inl InvalidSession"
  using requireSession_cong [of demo_shared demo_state]
  by (simp_all add: demo_shared_def demo_full_def demo_state_bob demo_state_carol demo_state_master)
     (simp add: requireSession_def demo_state_def bob_token_def carol_token_def master_token_def)

lemma demo_shared_chunks: "chunks demo_shared = demo_chunks"
  by (simp add: demo_shared_def demo_full_def)

lemma demo_assemble:
  "assemble demo_chunks 1 (demo_file\<lparr>shareToken := x\<rparr>) =
     Inr \<lparr>data = [1, 2, 3, 4, 5, 6], mimeType_d = ''text/plain'', filename_d = ''a.txt''\<rparr>"
  "assemble demo_chunks 1 demo_file =
     Inr \<lparr>data = [1, 2, 3, 4, 5, 6], mimeType_d = ''text/plain'', filename_d = ''a.txt''\<rparr>"
  by (simp_all add: assemble_def demo_file_def upt_3 demo_chunks_simps)

lemma owner_or_elevated_shareToken [simp]:
  "owner_or_elevated u (f\<lparr>shareToken := x\<rparr>) = owner_or_elevated u f"
  by (simp add: owner_or_elevated_def)

theorem downloadFile_authorization_witness:
  "downloadFile demo_shared 1 None (Some ''share1555'') =
     Inr \<lparr>data = [1, 2, 3, 4, 5, 6], mimeType_d = ''text/plain'', filename_d = ''a.txt''\<rparr>
   \<and> downloadFile demo_shared 1 None None = Inl NoCredentials
   \<and> downloadFile demo_shared 1 (Some ''nope'') None = Inl InvalidSession
   \<and> is_Unauthorized InvalidSession
   \<and> downloadFile demo_shared 1 (Some master_token) None =
     Inr \<lparr>data = [1, 2, 3, 4, 5, 6], mimeType_d = ''text/plain'', filename_d = ''a.txt''\<rparr>
   \<and> downloadFile demo_shared 1 (Some carol_token) None = Inl NotFileOwner
   \<and> downloadFile demo_shared 2 None (Some ''share1555'') = Inl NoCredentials
   \<and> (\<exists>st s'. generateShareLink demo_full 5 bob_token 1 = Inr (st, s')
         \<and> downloadFile s' 1 None (Some st) =
             Inr \<lparr>data = [1, 2, 3, 4, 5, 6], mimeType_d = ''text/plain'', filename_d = ''a.txt''\<rparr>
         \<and> downloadFile s' 2 None (Some st) = Inl NoCredentials
         \<and> downloadFile s' 9 None (Some st) = Inl FileNotFound)
   \<and> downloadFile demo_shared 2 None (Some (''share'' @ nat32_toText 1 @ ''5'' @ ''5'' @ ''5''))
       = Inl NoCredentials"
proof -
  note t = downloadFile_authorization [OF demo_shared_file]
  have 1: "downloadFile demo_shared 1 None (Some ''share1555'') =
     Inr \<lparr>data = [1, 2, 3, 4, 5, 6], mimeType_d = ''text/plain'', filename_d = ''a.txt''\<rparr>"
    using t [where st = "''share1555''" and tok = None] demo_shared_token
    by (simp add: demo_shared_chunks demo_assemble)
  have 2: "downloadFile demo_shared 1 None None = Inl NoCredentials"
    using t [where shareTok = None] by simp
  have 3: "downloadFile demo_shared 1 (Some ''nope'') None = Inl InvalidSession
      \<and> is_Unauthorized InvalidSession"
    using t [where shareTok = None and t = "''nope''" and e = InvalidSession]
      demo_shared_sessions(4) by simp
  have 4: "downloadFile demo_shared 1 (Some master_token) None =
     Inr \<lparr>data = [1, 2, 3, 4, 5, 6], mimeType_d = ''text/plain'', filename_d = ''a.txt''\<rparr>"
    using t [where shareTok = None and t = master_token and user = masterUser]
      demo_shared_sessions(3) master_elevated
    by (simp add: demo_shared_chunks demo_assemble)
  have 5: "downloadFile demo_shared 1 (Some carol_token) None = Inl NotFileOwner"
    using t [where shareTok = None and t = carol_token and user = carol]
      demo_shared_sessions(2) carol_not_owner by simp
  have 6: "downloadFile demo_shared 2 None (Some ''share1555'') = Inl NoCredentials"
    using downloadFile_authorization [OF demo_shared_file2, where st = "''share1555''" and fid' = 1]
      demo_shared_token by simp
  obtain st s' where g: "generateShareLink demo_full 5 bob_token 1 = Inr (st, s')"
    and f2: "files s' 2 = Some carol_file" and f9: "files s' 9 = None"
    using generateShareLink_ok [OF demo_full_file demo_full_bob bob_owns_demo_file, of 5]
    by (auto simp: demo_file_def demo_full_def demo_state_def)
  have "shareToken demo_file = None" "chunks demo_full = demo_chunks"
    by (simp_all add: demo_file_def demo_full_def)
  with downloadFile_authorization [OF demo_full_file, where t = bob_token and user = bob
      and now = 5 and st = st and s' = s' and fid' = 2 and f' = carol_file]
    g f2 demo_full_bob bob_owns_demo_file
  have 7: "downloadFile s' 1 None (Some st) =
             Inr \<lparr>data = [1, 2, 3, 4, 5, 6], mimeType_d = ''text/plain'', filename_d = ''a.txt''\<rparr>
         \<and> downloadFile s' 2 None (Some st) = Inl NoCredentials"
    by (simp add: demo_assemble)
  from downloadFile_authorization [OF demo_full_file, where t = bob_token and user = bob
      and now = 5 and st = st and s' = s' and fid' = 9]
    g f9 demo_full_bob bob_owns_demo_file \<open>shareToken demo_file = None\<close>
  have 8: "downloadFile s' 9 None (Some st) = Inl FileNotFound"
    by simp
  have wf: "share_tokens_wf 1 demo_shared"
  proof -
    have "''share1555'' = ''share'' @ nat32_toText 1 @ ''5'' @ ''5'' @ ''5''"
      by (simp add: nat32_toText_1)
    then show ?thesis
      unfolding share_tokens_wf_def demo_shared_def
      by (auto split: if_splits intro!: exI [of _ "''5''"])
  qed
  from downloadFile_authorization [OF demo_shared_file2, where L = 1 and ts = "''5''"
      and fid' = 1] wf
  have 9: "downloadFile demo_shared 2 None (Some (''share'' @ nat32_toText 1 @ ''5'' @ ''5'' @ ''5''))
       = Inl NoCredentials"
    by simp
  from 1 2 3 4 5 6 7 8 9 g show ?thesis by blast
qed

theorem file_operations_authorization_witness:
  "files demo_full 1 = Some demo_file \<and> requireSession demo_full carol_token = Inr carol
   \<and> \<not> owner_or_elevated carol demo_file
   \<and> uploadChunk demo_full carol_token 1 0 [9] = Inl NotFileOwner
   \<and> finalizeUpload demo_full carol_token 1 = Inl NotFileOwner
   \<and> deleteFile demo_full carol_token 1 = Inl NotFileOwner
   \<and> generateShareLink demo_full 5 carol_token 1 = Inl NotFileOwner
   \<and> downloadFile demo_full 1 (Some carol_token) None = Inl NotFileOwner
   \<and> commit demo_full (exec demo_full 5 (UploadChunk carol_token 1 0 [9])) = demo_full
   \<and> commit demo_full (exec demo_full 5 (FinalizeUpload carol_token 1)) = demo_full
   \<and> commit demo_full (exec demo_full 5 (DeleteFile carol_token 1)) = demo_full
   \<and> commit demo_full (exec demo_full 5 (GenerateShareLink carol_token 1)) = demo_full
   \<and> requireSession demo_full master_token = Inr masterUser
   \<and> owner_or_elevated masterUser demo_file
   \<and> (\<exists>c s'. uploadChunk demo_full master_token 1 0 [9] = Inr (c, s'))
   \<and> (\<exists>s'. deleteFile demo_full master_token 1 = Inr ((), s'))
   \<and> (\<exists>st s'. generateShareLink demo_full 5 master_token 1 = Inr (st, s'))
   \<and> (\<exists>c s'. uploadChunk demo_full bob_token 1 0 [9] = Inr (c, s'))
   \<and> (\<exists>s'. deleteFile demo_full bob_token 1 = Inr ((), s'))"
proof -
  from file_operations_authorization [OF demo_full_file demo_full_carol,
      where i = 0 and d = "[9]" and now = 5 and shareTok = None]
  have 1: "uploadChunk demo_full carol_token 1 0 [9] = Inl NotFileOwner
   \<and> finalizeUpload demo_full carol_token 1 = Inl NotFileOwner
   \<and> deleteFile demo_full carol_token 1 = Inl NotFileOwner
   \<and> generateShareLink demo_full 5 carol_token 1 = Inl NotFileOwner
   \<and> downloadFile demo_full 1 (Some carol_token) None = Inl NotFileOwner
   \<and> commit demo_full (exec demo_full 5 (UploadChunk carol_token 1 0 [9])) = demo_full
   \<and> commit demo_full (exec demo_full 5 (FinalizeUpload carol_token 1)) = demo_full
   \<and> commit demo_full (exec demo_full 5 (DeleteFile carol_token 1)) = demo_full
   \<and> commit demo_full (exec demo_full 5 (GenerateShareLink carol_token 1)) = demo_full"
    using carol_not_owner by (simp add: commit_def)
  from file_operations_authorization [OF demo_full_file demo_full_master,
      where i = 0 and d = "[9]" and now = 5 and shareTok = None]
  have 2: "(\<exists>c s'. uploadChunk demo_full master_token 1 0 [9] = Inr (c, s'))
   \<and> (\<exists>s'. deleteFile demo_full master_token 1 = Inr ((), s'))
   \<and> (\<exists>st s'. generateShareLink demo_full 5 master_token 1 = Inr (st, s'))"
    using master_elevated by simp
  from file_operations_authorization [OF demo_full_file demo_full_bob,
      where i = 0 and d = "[9]" and now = 5 and shareTok = None]
  have 3: "(\<exists>c s'. uploadChunk demo_full bob_token 1 0 [9] = Inr (c, s'))
   \<and> (\<exists>s'. deleteFile demo_full bob_token 1 = Inr ((), s'))"
    using bob_owns_demo_file by simp
  from 1 2 3 show ?thesis
    using demo_full_file demo_full_carol carol_not_owner demo_full_master master_elevated
    by blast
qed

theorem finalizeUpload_not_idempotent_witness:
  "files demo_full 1 = Some demo_file \<and> requireSession demo_full bob_token = Inr bob
   \<and> owner_or_elevated bob demo_file
   \<and> users demo_full (owner demo_file) = Some bob
   \<and> (\<exists>s1 s2. finalizeUpload demo_full bob_token 1 = Inr ((), s1)
         \<and> finalizeUpload s1 bob_token 1 = Inr ((), s2)
         \<and> users s1 2 = Some (bob\<lparr>usedBytes := 6\<rparr>)
         \<and> users s2 2 = Some (bob\<lparr>usedBytes := 12\<rparr>))"
proof -
  have o: "users demo_full (owner demo_file) = Some bob"
    by (simp add: demo_full_def demo_state_def demo_file_def)
  from finalizeUpload_not_idempotent
    [OF demo_full_file demo_full_bob bob_owns_demo_file demo_chunks_all, of bob]
  have "\<exists>s1 s2. finalizeUpload demo_full bob_token 1 = Inr ((), s1)
         \<and> finalizeUpload s1 bob_token 1 = Inr ((), s2)
         \<and> users s1 2 = Some (bob\<lparr>usedBytes := 6\<rparr>)
         \<and> users s2 2 = Some (bob\<lparr>usedBytes := 12\<rparr>)"
    using o by (simp add: demo_file_def bob_def)
  then show ?thesis
    using demo_full_file demo_full_bob bob_owns_demo_file o by simp
qed

theorem deleteFile_reclaims_witness:
  "files demo_shared 1 = Some (demo_file\<lparr>shareToken := Some ''share1555''\<rparr>)
   \<and> requireSession demo_shared master_token = Inr masterUser
   \<and> owner_or_elevated masterUser (demo_file\<lparr>shareToken := Some ''share1555''\<rparr>)
   \<and> (\<exists>s'. deleteFile demo_shared master_token 1 = Inr ((), s')
         \<and> chunks s' (chunkKey 1 0) = None \<and> chunks s' (chunkKey 1 1) = None
         \<and> chunks s' (chunkKey 1 2) = None
         \<and> shareTokens s' ''share1555'' = None
         \<and> files s' 1 = None
         \<and> users s' 2 = Some (bob\<lparr>usedBytes := 0\<rparr>)
         \<and> deleteFile s' master_token 1 = Inl FileNotFound)"
proof -
  have o: "users demo_shared (owner (demo_file\<lparr>shareToken := Some ''share1555''\<rparr>)) = Some bob"
    by (simp add: demo_shared_def demo_full_def demo_state_def demo_file_def)
  have m: "owner_or_elevated masterUser (demo_file\<lparr>shareToken := Some ''share1555''\<rparr>)"
    using master_elevated by simp
  from deleteFile_reclaims [OF demo_shared_file demo_shared_sessions(3) m,
      of "''share1555''" bob]
  obtain s' where s': "deleteFile demo_shared master_token 1 = Inr ((), s')"
      "\<forall>i<3. chunks s' (chunkKey 1 i) = None"
      "shareTokens s' ''share1555'' = None" "files s' 1 = None"
      "users s' 2 = Some (bob\<lparr>usedBytes := 0\<rparr>)"
      "deleteFile s' master_token 1 = Inl FileNotFound"
    using o by (auto simp: demo_file_def bob_def)
  from s'(2) have "chunks s' (chunkKey 1 0) = None \<and> chunks s' (chunkKey 1 1) = None
         \<and> chunks s' (chunkKey 1 2) = None"
    by simp
  with s' show ?thesis
    using demo_shared_file demo_shared_sessions(3) m by blast
qed

theorem chunk_beyond_totalChunks_witness:
  "files demo_full 1 = Some demo_file \<and> requireSession demo_full bob_token = Inr bob
   \<and> owner_or_elevated bob demo_file \<and> totalChunks demo_file \<le> 7
   \<and> (\<exists>s'. uploadChunk demo_full bob_token 1 7 [9] = Inr (3, s')
         \<and> chunks s' (chunkKey 1 7) = Some [9]
         \<and> (\<exists>t. finalizeUpload s' bob_token 1 = Inr ((), t))
         \<and> downloadFile s' 1 (Some bob_token) None =
             Inr \<lparr>data = [1, 2, 3, 4, 5, 6], mimeType_d = ''text/plain'', filename_d = ''a.txt''\<rparr>
         \<and> (\<exists>t. deleteFile s' bob_token 1 = Inr ((), t) \<and> chunks t (chunkKey 1 7) = Some [9]))"
proof -
  have n: "totalChunks demo_file \<le> 7" by (simp add: demo_file_def)
  have c: "count_present (chunks demo_full) 1 [0..<totalChunks demo_file] 0 = 3"
    by (simp add: demo_file_def upt_3 demo_full_def demo_chunks_simps)
  obtain t0 where fin: "finalizeUpload demo_full bob_token 1 = Inr ((), t0)"
    using finalizeUpload_ok [OF demo_full_file demo_full_bob bob_owns_demo_file demo_chunks_all]
    by blast
  have dl: "downloadFile demo_full 1 (Some bob_token) None =
             Inr \<lparr>data = [1, 2, 3, 4, 5, 6], mimeType_d = ''text/plain'', filename_d = ''a.txt''\<rparr>"
    using downloadFile_session [OF demo_full_file, of None "Some bob_token"]
      demo_full_bob bob_owns_demo_file
    by (simp add: demo_full_def demo_assemble)
  from chunk_beyond_totalChunks [OF demo_full_file demo_full_bob bob_owns_demo_file n,
      of "[9]" "Some bob_token" None]
  have "\<exists>s'. uploadChunk demo_full bob_token 1 7 [9] = Inr (3, s')
         \<and> chunks s' (chunkKey 1 7) = Some [9]
         \<and> (\<exists>t. finalizeUpload s' bob_token 1 = Inr ((), t))
         \<and> downloadFile s' 1 (Some bob_token) None =
             Inr \<lparr>data = [1, 2, 3, 4, 5, 6], mimeType_d = ''text/plain'', filename_d = ''a.txt''\<rparr>
         \<and> (\<exists>t. deleteFile s' bob_token 1 = Inr ((), t) \<and> chunks t (chunkKey 1 7) = Some [9])"
    unfolding c fin dl by auto
  then show ?thesis
    using demo_full_file demo_full_bob bob_owns_demo_file n by simp
qed

section \<open>Reachable states, file identifiers and the quota\<close>

lemma nextFileId_Inr:
  "nextFileId s = Inr (fid, s1) \<Longrightarrow>
     fid = fileIdCounter s + 1 \<and> s1 = s\<lparr>fileIdCounter := fileIdCounter s + 1\<rparr>
     \<and> unat fid = unat (fileIdCounter s) + 1"
  by (auto simp: nextFileId_def unat_word_ariths split: if_splits)

lemma initUpload_Inr:
  assumes "initUpload s now tok fname mime tSize tChunks = Inr (fid, s')"
  shows "\<exists>user. requireSession s tok = Inr user \<and> usedBytes user + tSize \<le> quota user
      \<and> fid = fileIdCounter s + 1 \<and> unat fid = unat (fileIdCounter s) + 1
      \<and> s' = s\<lparr>fileIdCounter := fid,
                files := (files s)(fid \<mapsto>
                  \<lparr>fileId = fid, owner = id_u user, filename = fname, mimeType = mime,
                   totalSize = tSize, totalChunks = tChunks, status = Pending,
                   created = now, shareToken = None\<rparr>)\<rparr>"
  using assms
  by (auto simp: initUpload_def Let_def split: sum.splits if_splits dest!: nextFileId_Inr)

lemma files_below_counter_exec:
  assumes "files_below_counter s" "exec s now c = Inr s'"
  shows "files_below_counter s'"
proof (cases c)
  case (InitUpload t fn mt sz n)
  with assms(2) obtain fid where "initUpload s now t fn mt sz n = Inr (fid, s')"
    by (cases "initUpload s now t fn mt sz n") auto
  from initUpload_Inr [OF this] assms(1) show ?thesis
    by (fastforce simp: files_below_counter_def)
next
  case (Login u p)
  with assms show ?thesis
    by (auto simp: files_below_counter_def login_def Let_def split: option.splits if_splits)
next
  case (Logout t)
  with assms show ?thesis
    by (auto simp: files_below_counter_def logout_def)
next
  case (RegisterUser u p)
  with assms show ?thesis
    by (auto simp: files_below_counter_def registerUser_def nextUserId_def Let_def
        split: option.splits if_splits sum.splits)
next
  case (CreateUser t u p r)
  with assms show ?thesis
    by (auto simp: files_below_counter_def createUser_def nextUserId_def Let_def
        split: option.splits if_splits sum.splits)
next
  case (DeleteUser t uid)
  with assms show ?thesis
    by (auto simp: files_below_counter_def deleteUser_def Let_def
        split: option.splits if_splits sum.splits)
next
  case (UpdateUserRole t uid r)
  with assms show ?thesis
    by (auto simp: files_below_counter_def updateUserRole_def
        split: option.splits if_splits sum.splits)
next
  case (UpdateUserGbLimit t uid g)
  with assms show ?thesis
    by (auto simp: files_below_counter_def updateUserGbLimit_def
        split: option.splits if_splits sum.splits)
next
  case (UploadChunk t fid i d)
  with assms show ?thesis
    by (auto simp: files_below_counter_def uploadChunk_def Let_def
        split: option.splits if_splits sum.splits)
next
  case (FinalizeUpload t fid)
  with assms show ?thesis
    by (auto simp: files_below_counter_def finalizeUpload_def Let_def
        split: option.splits if_splits sum.splits)
next
  case (DeleteFile t fid)
  with assms show ?thesis
    by (auto simp: files_below_counter_def deleteFile_def Let_def
        split: option.splits if_splits sum.splits)
next
  case (GenerateShareLink t fid)
  with assms show ?thesis
    by (auto simp: files_below_counter_def generateShareLink_def Let_def
        split: option.splits if_splits sum.splits)
qed

lemma reachable_files_below_counter: "reachable s \<Longrightarrow> files_below_counter s"
proof (induction rule: reachable.induct)
  case reachable_init
  show ?case by (simp add: files_below_counter_def init_state_def)
next
  case (reachable_step s now c s')
  then show ?case by (blast intro: files_below_counter_exec)
qed

lemma nat_toText_digit: "n < 10 \<Longrightarrow> nat_toText n = [digit_char n]"
  by (subst nat_toText.simps) simp

lemma int_toText_1: "int_toText 1 = ''1''"
  by code_simp

lemma registered_state:
  "exec init_state 1 (RegisterUser ''bob'' ''pw'') =
     Inr (init_state\<lparr>userIdCounter := 2, users := [1 \<mapsto> masterUser, 2 \<mapsto> bob],
                     usersByName := [''SidneiCosta00'' \<mapsto> 1, ''bob'' \<mapsto> 2]\<rparr>)"
  by (simp add: registerUser_def init_state_def nextUserId_def bob_def hashPassword_def)

lemma bob_logged_in_step:
  "exec (init_state\<lparr>userIdCounter := 2, users := [1 \<mapsto> masterUser, 2 \<mapsto> bob],
                     usersByName := [''SidneiCosta00'' \<mapsto> 1, ''bob'' \<mapsto> 2]\<rparr>)
        1 (Login ''bob'' ''pw'') = Inr bob_logged_in"
  by (simp add: login_def init_state_def bob_def hashPassword_def createToken_def int_toText_1
      bob_logged_in_def bob_token_def Let_def)

lemma reachable_bob_logged_in: "reachable bob_logged_in"
  using reachable_step [OF reachable_step [OF reachable_init registered_state] bob_logged_in_step] .

lemma after_uploads_session [simp]: "requireSession (after_uploads n) bob_token = Inr bob"
  by (simp add: requireSession_def after_uploads_def bob_logged_in_def)

lemma after_uploads_0: "after_uploads 0 = bob_logged_in"
  by (auto simp: after_uploads_def bob_logged_in_def fun_eq_iff)

lemma after_uploads_step:
  assumes "Suc n < 2 ^ 32"
  shows "exec (after_uploads n) 1 (InitUpload bob_token [] [] 0 0) = Inr (after_uploads (Suc n))"
proof -
  define c :: "32 word" where "c = of_nat n"
  have cn: "unat c = n"
    unfolding c_def using assms by (simp add: unat_of_nat)
  have c1: "unat (c + 1) = Suc n"
  proof -
    have "unat (c + 1) = (unat c + unat (1 :: 32 word)) mod 2 ^ LENGTH(32)"
      by (rule unat_word_ariths(1))
    then show ?thesis using cn assms by simp
  qed
  have cs: "of_nat (Suc n) = c + 1"
    unfolding c_def by simp
  have e: "fid = c + 1 \<longleftrightarrow> unat fid = Suc n" for fid
    using c1 by (auto simp: word_unat_eq_iff)
  have st: "after_uploads n =
      bob_logged_in\<lparr>files := (\<lambda>fid. if 0 < unat fid \<and> unat fid \<le> n
                                     then Some (empty_file fid) else None),
                   fileIdCounter := c\<rparr>"
    unfolding c_def after_uploads_def ..
  have st': "after_uploads (Suc n) =
      bob_logged_in\<lparr>files := (\<lambda>fid. if 0 < unat fid \<and> unat fid \<le> Suc n
                                     then Some (empty_file fid) else None),
                   fileIdCounter := c + 1\<rparr>"
    unfolding after_uploads_def cs ..
  have f: "(\<lambda>fid. if 0 < unat fid \<and> unat fid \<le> n then Some (empty_file fid) else None)
             (c + 1 \<mapsto> empty_file (c + 1))
         = (\<lambda>fid. if 0 < unat fid \<and> unat fid \<le> Suc n then Some (empty_file fid) else None)"
  proof (rule ext)
    fix fid
    show "((\<lambda>fid. if 0 < unat fid \<and> unat fid \<le> n then Some (empty_file fid) else None)
             (c + 1 \<mapsto> empty_file (c + 1))) fid
         = (if 0 < unat fid \<and> unat fid \<le> Suc n then Some (empty_file fid) else None)"
    proof (cases "fid = c + 1")
      case True
      then show ?thesis using c1 by simp
    next
      case False
      then have "unat fid \<noteq> Suc n" using e by simp
      with False show ?thesis by (auto simp: le_Suc_eq)
    qed
  qed
  have "initUpload (after_uploads n) 1 bob_token [] [] 0 0 = Inr (c + 1, after_uploads (Suc n))"
    unfolding st st' using cn assms f
    by (simp add: initUpload_def nextFileId_def requireSession_def bob_logged_in_def bob_def
        empty_file_def)
  then show ?thesis by simp
qed

lemma reachable_after_uploads: "n < 2 ^ 32 \<Longrightarrow> reachable (after_uploads n)"
proof (induction n)
  case 0
  show ?case using reachable_bob_logged_in by (simp add: after_uploads_0)
next
  case (Suc n)
  then have "reachable (after_uploads n)" by simp
  from reachable_step [OF this after_uploads_step [OF Suc.prems]] show ?case .
qed

lemma reachable_ids_exhausted: "reachable ids_exhausted"
  unfolding ids_exhausted_def by (rule reachable_after_uploads) simp

lemma initUpload_ok:
  assumes "requireSession s tok = Inr user" "usedBytes user + tSize \<le> quota user"
    and "unat (fileIdCounter s) + 1 < 2 ^ 32"
  shows "initUpload s now tok fname mime tSize tChunks =
    Inr (fileIdCounter s + 1,
         s\<lparr>fileIdCounter := fileIdCounter s + 1,
           files := (files s)(fileIdCounter s + 1 \<mapsto>
             \<lparr>fileId = fileIdCounter s + 1, owner = id_u user, filename = fname,
              mimeType = mime, totalSize = tSize, totalChunks = tChunks, status = Pending,
              created = now, shareToken = None\<rparr>)\<rparr>)"
  using assms by (simp add: initUpload_def nextFileId_def)

lemma initUpload_QuotaExceeded_iff:
  assumes "requireSession s tok = Inr user"
  shows "initUpload s now tok fname mime tSize tChunks = Inl QuotaExceeded
     \<longleftrightarrow> usedBytes user + tSize > quota user"
  using assms
  by (auto simp: initUpload_def nextFileId_def Let_def split: sum.splits if_splits)

lemma initUpload_overflow:
  assumes "requireSession s tok = Inr user" "usedBytes user + tSize \<le> quota user"
    and "\<not> unat (fileIdCounter s) + 1 < 2 ^ 32"
  shows "initUpload s now tok fname mime tSize tChunks = Inl ArithmeticOverflow"
  using assms by (simp add: initUpload_def nextFileId_def)

lemma next_fileId_fresh:
  assumes "reachable s" "unat (fileIdCounter s) + 1 < 2 ^ 32"
  shows "files s (fileIdCounter s + 1) = None"
proof (rule ccontr)
  assume "files s (fileIdCounter s + 1) \<noteq> None"
  then obtain f where "files s (fileIdCounter s + 1) = Some f" by auto
  with reachable_files_below_counter [OF assms(1)]
  have "unat (fileIdCounter s + 1) \<le> unat (fileIdCounter s)"
    by (simp add: files_below_counter_def)
  moreover have "unat (fileIdCounter s + 1) = unat (fileIdCounter s) + 1"
    using assms(2) by (simp add: unat_word_ariths)
  ultimately show False by simp
qed

text \<open>
  Claim C2, as amended. With a valid session \<open>initUpload\<close> traps with \<open>QuotaExceeded\<close>
  exactly when \<open>usedBytes + totalSize > quota\<close>. When \<open>usedBytes + totalSize \<le> quota\<close>
  (so also at equality) and the file counter is below \<open>2^32 - 1\<close>, it returns the next
  identifier with a \<open>Pending\<close> record of the arguments, and in every reachable state that
  identifier was not in use. When the counter is \<open>2^32 - 1\<close> the \<open>Nat32\<close> addition of
  \<open>nextFileId\<close> traps instead.
\<close>

theorem initUpload_quota:
  assumes "requireSession s tok = Inr user"
  shows "(initUpload s now tok fname mime tSize tChunks = Inl QuotaExceeded
            \<longleftrightarrow> usedBytes user + tSize > quota user)
       \<and> (usedBytes user + tSize \<le> quota user \<and> unat (fileIdCounter s) + 1 < 2 ^ 32
            \<longrightarrow> (\<exists>s'. initUpload s now tok fname mime tSize tChunks = Inr (fileIdCounter s + 1, s')
                   \<and> files s' (fileIdCounter s + 1) =
                       Some \<lparr>fileId = fileIdCounter s + 1, owner = id_u user, filename = fname,
                             mimeType = mime, totalSize = tSize, totalChunks = tChunks,
                             status = Pending, created = now, shareToken = None\<rparr>
                   \<and> (reachable s \<longrightarrow> files s (fileIdCounter s + 1) = None)))
       \<and> (usedBytes user + tSize \<le> quota user \<and> \<not> unat (fileIdCounter s) + 1 < 2 ^ 32
            \<longrightarrow> initUpload s now tok fname mime tSize tChunks = Inl ArithmeticOverflow)"
proof (intro conjI impI)
  show "initUpload s now tok fname mime tSize tChunks = Inl QuotaExceeded
            \<longleftrightarrow> usedBytes user + tSize > quota user"
    by (rule initUpload_QuotaExceeded_iff [OF assms])
next
  assume a: "usedBytes user + tSize \<le> quota user \<and> unat (fileIdCounter s) + 1 < 2 ^ 32"
  then have "initUpload s now tok fname mime tSize tChunks =
    Inr (fileIdCounter s + 1,
         s\<lparr>fileIdCounter := fileIdCounter s + 1,
           files := (files s)(fileIdCounter s + 1 \<mapsto>
             \<lparr>fileId = fileIdCounter s + 1, owner = id_u user, filename = fname,
              mimeType = mime, totalSize = tSize, totalChunks = tChunks, status = Pending,
              created = now, shareToken = None\<rparr>)\<rparr>)"
    using initUpload_ok [OF assms] by blast
  moreover have "reachable s \<longrightarrow> files s (fileIdCounter s + 1) = None"
    using next_fileId_fresh a by blast
  ultimately show "\<exists>s'. initUpload s now tok fname mime tSize tChunks = Inr (fileIdCounter s + 1, s')
                   \<and> files s' (fileIdCounter s + 1) =
                       Some \<lparr>fileId = fileIdCounter s + 1, owner = id_u user, filename = fname,
                             mimeType = mime, totalSize = tSize, totalChunks = tChunks,
                             status = Pending, created = now, shareToken = None\<rparr>
                   \<and> (reachable s \<longrightarrow> files s (fileIdCounter s + 1) = None)"
    by simp
next
  assume "usedBytes user + tSize \<le> quota user \<and> \<not> unat (fileIdCounter s) + 1 < 2 ^ 32"
  then show "initUpload s now tok fname mime tSize tChunks = Inl ArithmeticOverflow"
    using initUpload_overflow [OF assms] by blast
qed

lemma bob_logged_in_session: "requireSession bob_logged_in bob_token = Inr bob"
  by (simp add: requireSession_def bob_logged_in_def)

lemma ids_exhausted_counter: "unat (fileIdCounter ids_exhausted) + 1 = 2 ^ 32"
  by (simp add: ids_exhausted_def after_uploads_def)

text \<open>
  The claim C2 as stated fails in the reachable state \<open>ids_exhausted\<close>: the session is
  valid and \<open>usedBytes + totalSize = quota\<close>, and \<open>initUpload\<close> traps.
\<close>

theorem initUpload_at_quota_counterexample:
  "reachable ids_exhausted \<and> requireSession ids_exhausted bob_token = Inr bob
   \<and> usedBytes bob + 5000000000 = quota bob
   \<and> initUpload ids_exhausted 2 bob_token ''a.bin'' ''x'' 5000000000 1 = Inl ArithmeticOverflow"
proof -
  have r: "requireSession ids_exhausted bob_token = Inr bob"
    by (simp add: ids_exhausted_def)
  have q: "usedBytes bob + 5000000000 = quota bob" by (simp add: bob_def)
  have "initUpload ids_exhausted 2 bob_token ''a.bin'' ''x'' 5000000000 1 = Inl ArithmeticOverflow"
    using initUpload_overflow [OF r, of 5000000000] q ids_exhausted_counter by simp
  with r q reachable_ids_exhausted show ?thesis by simp
qed

theorem initUpload_quota_witness:
  "requireSession bob_logged_in bob_token = Inr bob
   \<and> usedBytes bob + 5000000000 = quota bob
   \<and> initUpload bob_logged_in 2 bob_token ''a.bin'' ''x'' 5000000001 1 = Inl QuotaExceeded
   \<and> (\<exists>s'. initUpload bob_logged_in 2 bob_token ''a.bin'' ''x'' 5000000000 1 = Inr (1, s')
         \<and> files s' 1 = Some \<lparr>fileId = 1, owner = 2, filename = ''a.bin'', mimeType = ''x'',
                               totalSize = 5000000000, totalChunks = 1, status = Pending,
                               created = 2, shareToken = None\<rparr>
         \<and> files bob_logged_in 1 = None)
   \<and> requireSession ids_exhausted bob_token = Inr bob
   \<and> initUpload ids_exhausted 2 bob_token ''a.bin'' ''x'' 0 1 = Inl ArithmeticOverflow"
proof -
  have q: "usedBytes bob + 5000000000 = quota bob" by (simp add: bob_def)
  have c: "fileIdCounter bob_logged_in = 0" by (simp add: bob_logged_in_def)
  have r: "requireSession ids_exhausted bob_token = Inr bob"
    by (simp add: ids_exhausted_def)
  from initUpload_quota [OF bob_logged_in_session, of 2 "''a.bin''" "''x''" 5000000001 1]
  have 1: "initUpload bob_logged_in 2 bob_token ''a.bin'' ''x'' 5000000001 1 = Inl QuotaExceeded"
    by (simp add: bob_def)
  from initUpload_quota [OF bob_logged_in_session, of 2 "''a.bin''" "''x''" 5000000000 1]
  have 2: "\<exists>s'. initUpload bob_logged_in 2 bob_token ''a.bin'' ''x'' 5000000000 1 = Inr (1, s')
         \<and> files s' 1 = Some \<lparr>fileId = 1, owner = 2, filename = ''a.bin'', mimeType = ''x'',
                               totalSize = 5000000000, totalChunks = 1, status = Pending,
                               created = 2, shareToken = None\<rparr>
         \<and> files bob_logged_in 1 = None"
    using reachable_bob_logged_in by (simp add: bob_def c)
  from initUpload_quota [OF r, of 2 "''a.bin''" "''x''" 0 1]
  have 3: "initUpload ids_exhausted 2 bob_token ''a.bin'' ''x'' 0 1 = Inl ArithmeticOverflow"
    using ids_exhausted_counter by (simp add: bob_def)
  from 1 2 3 q r bob_logged_in_session show ?thesis by blast
qed

lemma reachable_commit: "reachable s \<Longrightarrow> reachable (commit s (exec s now c))"
  by (cases "exec s now c") (auto simp: commit_def intro: reachable_step)

lemma reachable_run: "reachable s \<Longrightarrow> reachable (run s cs)"
  by (induction cs arbitrary: s) (simp_all add: reachable_commit split_paired_all)

lemma run_Cons_Inr: "exec s now c = Inr s' \<Longrightarrow> run s ((now, c) # cs) = run s' cs"
  by (simp add: commit_def)

lemma finalizeUpload_Inr:
  assumes "finalizeUpload s tok fid = Inr ((), s')" "files s fid = Some f"
  shows "s' = (case users s (owner f) of
                 None \<Rightarrow> s\<lparr>files := (files s)(fid \<mapsto> f\<lparr>status := Complete\<rparr>)\<rparr>
               | Some own \<Rightarrow>
                   s\<lparr>files := (files s)(fid \<mapsto> f\<lparr>status := Complete\<rparr>),
                     users := (users s)(owner f \<mapsto> own\<lparr>usedBytes := usedBytes own + totalSize f\<rparr>)\<rparr>)"
  using assms
  by (auto simp: finalizeUpload_def Let_def split: sum.splits option.splits if_splits)

text \<open>
  Claim C3, as amended. \<open>initUpload\<close> returns only when the caller's
  \<open>usedBytes + totalSize \<le> quota\<close> and changes no user; \<open>finalizeUpload\<close> adds
  \<open>totalSize\<close> to the owner's \<open>usedBytes\<close>, changes no other user and does not look at
  the quota, so afterwards the owner is within quota exactly when
  \<open>usedBytes + totalSize \<le> quota\<close> held before.
\<close>

theorem quota_checked_at_init_only:
  "(requireSession s tok = Inr user
      \<and> initUpload s now tok fname mime tSize tChunks = Inr (fid, s')
    \<longrightarrow> usedBytes user + tSize \<le> quota user \<and> users s' = users s)
   \<and> (files s fid = Some f \<and> users s (owner f) = Some own
        \<and> finalizeUpload s tok fid = Inr ((), s')
      \<longrightarrow> users s' = (users s)(owner f \<mapsto> own\<lparr>usedBytes := usedBytes own + totalSize f\<rparr>)
        \<and> (usedBytes (the (users s' (owner f))) \<le> quota (the (users s' (owner f)))
             \<longleftrightarrow> usedBytes own + totalSize f \<le> quota own))"
proof (intro conjI impI)
  assume a: "requireSession s tok = Inr user
      \<and> initUpload s now tok fname mime tSize tChunks = Inr (fid, s')"
  from a initUpload_Inr [of s now tok fname mime tSize tChunks fid s']
  show "usedBytes user + tSize \<le> quota user" "users s' = users s"
    by auto
next
  assume a: "files s fid = Some f \<and> users s (owner f) = Some own
        \<and> finalizeUpload s tok fid = Inr ((), s')"
  with finalizeUpload_Inr [of s tok fid s' f]
  show u: "users s' = (users s)(owner f \<mapsto> own\<lparr>usedBytes := usedBytes own + totalSize f\<rparr>)"
    by simp
  show "usedBytes (the (users s' (owner f))) \<le> quota (the (users s' (owner f)))
             \<longleftrightarrow> usedBytes own + totalSize f \<le> quota own"
    by (simp add: u)
qed

lemma quota_race_run:
  "run bob_logged_in quota_race =
     bob_logged_in\<lparr>fileIdCounter := 2,
       files := [1 \<mapsto> \<lparr>fileId = 1, owner = 2, filename = ''a.bin'', mimeType = ''x'',
                         totalSize = 5000000000, totalChunks = 0, status = Complete,
                         created = 2, shareToken = None\<rparr>,
                 2 \<mapsto> \<lparr>fileId = 2, owner = 2, filename = ''b.bin'', mimeType = ''x'',
                         totalSize = 5000000000, totalChunks = 0, status = Complete,
                         created = 3, shareToken = None\<rparr>],
       users := [1 \<mapsto> masterUser, 2 \<mapsto> bob\<lparr>usedBytes := 10000000000\<rparr>]\<rparr>"
proof -
  let ?f1 = "\<lparr>fileId = 1, owner = 2, filename = ''a.bin'', mimeType = ''x'',
              totalSize = 5000000000, totalChunks = 0, status = Pending,
              created = 2, shareToken = None\<rparr>"
  let ?f2 = "\<lparr>fileId = 2, owner = 2, filename = ''b.bin'', mimeType = ''x'',
              totalSize = 5000000000, totalChunks = 0, status = Pending,
              created = 3, shareToken = None\<rparr>"
  let ?s1 = "bob_logged_in\<lparr>fileIdCounter := 1, files := [1 \<mapsto> ?f1]\<rparr>"
  let ?s2 = "bob_logged_in\<lparr>fileIdCounter := 2, files := [1 \<mapsto> ?f1, 2 \<mapsto> ?f2]\<rparr>"
  let ?s3 = "bob_logged_in\<lparr>fileIdCounter := 2,
               files := [1 \<mapsto> ?f1\<lparr>status := Complete\<rparr>, 2 \<mapsto> ?f2],
               users := [1 \<mapsto> masterUser, 2 \<mapsto> bob\<lparr>usedBytes := 5000000000\<rparr>]\<rparr>"
  let ?s4 = "bob_logged_in\<lparr>fileIdCounter := 2,
               files := [1 \<mapsto> ?f1\<lparr>status := Complete\<rparr>, 2 \<mapsto> ?f2\<lparr>status := Complete\<rparr>],
               users := [1 \<mapsto> masterUser, 2 \<mapsto> bob\<lparr>usedBytes := 10000000000\<rparr>]\<rparr>"
  have e1: "exec bob_logged_in 2 (InitUpload bob_token ''a.bin'' ''x'' 5000000000 0) = Inr ?s1"
    using initUpload_ok [OF bob_logged_in_session, of 5000000000 2 "''a.bin''" "''x''" 0]
    by (simp add: bob_def bob_logged_in_def)
  have r1: "requireSession ?s1 bob_token = Inr bob"
    by (simp add: requireSession_def bob_logged_in_def)
  have e2: "exec ?s1 3 (InitUpload bob_token ''b.bin'' ''x'' 5000000000 0) = Inr ?s2"
    using initUpload_ok [OF r1, of 5000000000 3 "''b.bin''" "''x''" 0]
    by (simp add: bob_def bob_logged_in_def fun_upd_twist)
  have r2: "requireSession ?s2 bob_token = Inr bob"
    by (simp add: requireSession_def bob_logged_in_def)
  have o1: "owner_or_elevated bob ?f1" "owner_or_elevated bob ?f2"
    by (simp_all add: owner_or_elevated_def bob_def)
  have e3: "exec ?s2 4 (FinalizeUpload bob_token 1) = Inr ?s3"
    using finalizeUpload_ok [OF _ r2 o1(1), of 1]
    by (simp add: bob_logged_in_def bob_def fun_upd_twist)
  have r3: "requireSession ?s3 bob_token = Inr (bob\<lparr>usedBytes := 5000000000\<rparr>)"
    by (simp add: requireSession_def bob_logged_in_def)
  have o3: "owner_or_elevated (bob\<lparr>usedBytes := 5000000000\<rparr>) ?f2"
    using o1(2) by simp
  have e4: "exec ?s3 5 (FinalizeUpload bob_token 2) = Inr ?s4"
    using finalizeUpload_ok [OF _ r3 o3, of 2]
    by (simp add: bob_logged_in_def bob_def)
  have "run bob_logged_in quota_race = ?s4"
    unfolding quota_race_def
    by (simp only: run_Cons_Inr [OF e1] run_Cons_Inr [OF e2] run_Cons_Inr [OF e3]
        run_Cons_Inr [OF e4] run.simps(1))
  then show ?thesis by simp
qed

text \<open>
  The claim C3 as stated fails: after the four calls of \<open>quota_race\<close> from a reachable
  state, \<open>bob\<close> uses 10 GB of his 5 GB.
\<close>

theorem quota_invariant_counterexample:
  "reachable (run bob_logged_in quota_race)
   \<and> users (run bob_logged_in quota_race) 2 = Some (bob\<lparr>usedBytes := 10000000000\<rparr>)
   \<and> quota (bob\<lparr>usedBytes := 10000000000\<rparr>) < usedBytes (bob\<lparr>usedBytes := 10000000000\<rparr>)"
  using reachable_run [OF reachable_bob_logged_in, of quota_race]
  by (simp add: quota_race_run bob_def)

theorem quota_checked_at_init_only_witness:
  "requireSession bob_logged_in bob_token = Inr bob
   \<and> (\<exists>s1 s2. initUpload bob_logged_in 2 bob_token ''a.bin'' ''x'' 5000000000 0 = Inr (1, s1)
         \<and> usedBytes bob + 5000000000 \<le> quota bob
         \<and> users s1 = users bob_logged_in
         \<and> users s1 2 = Some bob
         \<and> finalizeUpload s1 bob_token 1 = Inr ((), s2)
         \<and> users s2 = (users s1)(2 \<mapsto> bob\<lparr>usedBytes := 5000000000\<rparr>)
         \<and> usedBytes (the (users s2 2)) \<le> quota (the (users s2 2)))"
proof -
  let ?f1 = "\<lparr>fileId = 1, owner = 2, filename = ''a.bin'', mimeType = ''x'',
              totalSize = 5000000000, totalChunks = 0, status = Pending,
              created = 2, shareToken = None\<rparr>"
  let ?s1 = "bob_logged_in\<lparr>fileIdCounter := 1, files := [1 \<mapsto> ?f1]\<rparr>"
  have i: "initUpload bob_logged_in 2 bob_token ''a.bin'' ''x'' 5000000000 0 = Inr (1, ?s1)"
    using initUpload_ok [OF bob_logged_in_session, of 5000000000 2 "''a.bin''" "''x''" 0]
    by (simp add: bob_def bob_logged_in_def)
  have r1: "requireSession ?s1 bob_token = Inr bob"
    by (simp add: requireSession_def bob_logged_in_def)
  have o1: "owner_or_elevated bob ?f1"
    by (simp add: owner_or_elevated_def bob_def)
  have f1: "files ?s1 1 = Some ?f1" by simp
  have u1: "users ?s1 (owner ?f1) = Some bob" by (simp add: bob_logged_in_def)
  obtain s2 where fin: "finalizeUpload ?s1 bob_token 1 = Inr ((), s2)"
    using finalizeUpload_ok [OF f1 r1 o1] by auto
  from quota_checked_at_init_only [where s = bob_logged_in and tok = bob_token and user = bob
      and now = 2 and fname = "''a.bin''" and mime = "''x''" and tSize = 5000000000
      and tChunks = 0 and fid = 1 and s' = ?s1] bob_logged_in_session i
  have 1: "usedBytes bob + 5000000000 \<le> quota bob \<and> users ?s1 = users bob_logged_in"
    by blast
  from quota_checked_at_init_only [where s = ?s1 and tok = bob_token and fid = 1
      and s' = s2 and f = ?f1 and own = bob] f1 u1 fin
  have 2: "users s2 = (users ?s1)(owner ?f1 \<mapsto> bob\<lparr>usedBytes := usedBytes bob + totalSize ?f1\<rparr>)
        \<and> (usedBytes (the (users s2 (owner ?f1))) \<le> quota (the (users s2 (owner ?f1)))
             \<longleftrightarrow> usedBytes bob + totalSize ?f1 \<le> quota bob)"
    by blast
  have b: "usedBytes bob = 0" "quota bob = 5000000000" by (simp_all add: bob_def)
  from 2 have 3: "users s2 = (users ?s1)(2 \<mapsto> bob\<lparr>usedBytes := 5000000000\<rparr>)
      \<and> usedBytes (the (users s2 2)) \<le> quota (the (users s2 2))"
    by (simp add: b)
  have 4: "users ?s1 2 = Some bob" by (simp add: bob_logged_in_def)
  from i 1 3 4 fin bob_logged_in_session show ?thesis by blast
qed

lemma int_toText_digits:
  "int_toText 0 = ''0''" "int_toText 2 = ''2''" "int_toText 5 = ''5''"
  by code_simp+

lemma reachable_demo_state: "reachable demo_state"
proof -
  let ?s1 = "bob_logged_in\<lparr>userIdCounter := 3,
               users := [1 \<mapsto> masterUser, 2 \<mapsto> bob, 3 \<mapsto> carol],
               usersByName := [''SidneiCosta00'' \<mapsto> 1, ''bob'' \<mapsto> 2, ''carol'' \<mapsto> 3]\<rparr>"
  let ?s2 = "?s1\<lparr>sessions := (sessions ?s1)(carol_token \<mapsto>
               \<lparr>userId = 3, token = carol_token, created_s = 2, lastActive = 2\<rparr>)\<rparr>"
  let ?s3 = "?s2\<lparr>sessions := (sessions ?s2)(master_token \<mapsto>
               \<lparr>userId = 1, token = master_token, created_s = 0, lastActive = 0\<rparr>)\<rparr>"
  let ?s4 = "?s3\<lparr>fileIdCounter := 1, files := [1 \<mapsto> demo_file]\<rparr>"
  have e1: "exec bob_logged_in 2 (RegisterUser ''carol'' ''pw'') = Inr ?s1"
    by (simp add: registerUser_def bob_logged_in_def nextUserId_def carol_def hashPassword_def)
  have e2: "exec ?s1 2 (Login ''carol'' ''pw'') = Inr ?s2"
    by (simp add: login_def bob_logged_in_def carol_def hashPassword_def createToken_def
        int_toText_digits carol_token_def Let_def)
  have e3: "exec ?s2 0 (Login ''SidneiCosta00'' ''Nikebolado@4'') = Inr ?s3"
    by (simp add: login_def bob_logged_in_def masterUser_def hashPassword_def createToken_def
        int_toText_digits master_token_def Let_def)
  have r3: "requireSession ?s3 bob_token = Inr bob"
    by (simp add: requireSession_def bob_logged_in_def bob_token_def carol_token_def
        master_token_def)
  have e4: "exec ?s3 3 (InitUpload bob_token ''a.txt'' ''text/plain'' 6 3) = Inr ?s4"
    using initUpload_ok [OF r3, of 6 3 "''a.txt''" "''text/plain''" 3]
    by (simp add: bob_def bob_logged_in_def demo_file_def)
  have r4: "requireSession ?s4 carol_token = Inr carol"
    by (simp add: requireSession_def bob_logged_in_def bob_token_def carol_token_def
        master_token_def)
  have "initUpload ?s4 4 carol_token ''b.bin'' ''application/octet-stream'' 0 0 = Inr (2, demo_state)"
    using initUpload_ok [OF r4, of 0 4 "''b.bin''" "''application/octet-stream''" 0]
    by (auto simp: carol_def bob_logged_in_def demo_state_def carol_file_def fun_eq_iff
        bob_token_def carol_token_def master_token_def)
  then have e5: "exec ?s4 4 (InitUpload carol_token ''b.bin'' ''application/octet-stream'' 0 0)
      = Inr demo_state"
    by simp
  note step = reachable_step
  show ?thesis
    by (rule step [OF step [OF step [OF step [OF step [OF reachable_bob_logged_in e1] e2] e3] e4] e5])
qed

lemma reachable_demo_full: "reachable demo_full"
proof -
  have e: "chunks demo_state = Map.empty" by (simp add: demo_state_def)
  have "uploadAll demo_state bob_token 1 [(0, [1, 2]), (1, [3]), (2, [4, 5, 6])] = Inr demo_full"
    using uploadChunk_ok [OF _ _ bob_owns_demo_file, of _ 1 bob_token]
    by (simp add: demo_state_file demo_state_bob demo_full_def demo_chunks_def e)
  moreover have "reachable s \<Longrightarrow> uploadAll s tok fid ups = Inr s' \<Longrightarrow> reachable s'"
    for s tok fid ups s'
  proof (induction ups arbitrary: s)
    case Nil
    then show ?case by simp
  next
    case (Cons p ups)
    obtain i d where p: "p = (i, d)" by (cases p)
    from Cons.prems(2) obtain c s1 where
      u: "uploadChunk s tok fid i d = Inr (c, s1)" and r: "uploadAll s1 tok fid ups = Inr s'"
      by (auto simp: p split: sum.splits)
    from u have "exec s 0 (UploadChunk tok fid i d) = Inr s1" by simp
    from Cons.IH [OF reachable_step [OF Cons.prems(1) this] r] show ?case .
  qed
  ultimately show ?thesis using reachable_demo_state by blast
qed

lemma reachable_demo_shared: "reachable demo_shared"
proof -
  have "generateShareLink demo_full 5 bob_token 1 = Inr (''share1555'', demo_shared)"
    using generateShareLink_ok [OF demo_full_file demo_full_bob bob_owns_demo_file, of 5]
    by (auto simp: demo_file_def createToken_def nat32_toText_1 int_toText_digits
        demo_shared_def demo_full_def demo_state_def fun_eq_iff)
  then have "exec demo_full 5 (GenerateShareLink bob_token 1) = Inr demo_shared"
    by simp
  from reachable_step [OF reachable_demo_full this] show ?thesis .
qed

section \<open>One share token generated for two files\<close>

lemma bob_uploads_session [simp]: "requireSession (bob_uploads n) bob_token = Inr bob"
  by (simp add: requireSession_def bob_uploads_def bob_logged_in_def)

lemma bob_uploads_0: "bob_uploads 0 = bob_logged_in"
  by (auto simp: bob_uploads_def bob_logged_in_def fun_eq_iff)

lemma bob_uploads_step:
  assumes "Suc n < 2 ^ 32"
  shows "exec (bob_uploads n) 1 (InitUpload bob_token [] [] 0 1) = Inr (bob_uploads (Suc n))"
proof -
  define c :: "32 word" where "c = of_nat n"
  have cn: "unat c = n"
    unfolding c_def using assms by (simp add: unat_of_nat)
  have c1: "unat (c + 1) = Suc n"
  proof -
    have "unat (c + 1) = (unat c + unat (1 :: 32 word)) mod 2 ^ LENGTH(32)"
      by (rule unat_word_ariths(1))
    then show ?thesis using cn assms by simp
  qed
  have cs: "of_nat (Suc n) = c + 1"
    unfolding c_def by simp
  have e: "fid = c + 1 \<longleftrightarrow> unat fid = Suc n" for fid
    using c1 by (auto simp: word_unat_eq_iff)
  have st: "bob_uploads n =
      bob_logged_in\<lparr>files := (\<lambda>fid. if 0 < unat fid \<and> unat fid \<le> n
                                     then Some (one_chunk_file fid) else None),
                   fileIdCounter := c\<rparr>"
    unfolding c_def bob_uploads_def ..
  have st': "bob_uploads (Suc n) =
      bob_logged_in\<lparr>files := (\<lambda>fid. if 0 < unat fid \<and> unat fid \<le> Suc n
                                     then Some (one_chunk_file fid) else None),
                   fileIdCounter := c + 1\<rparr>"
    unfolding bob_uploads_def cs ..
  have f: "(\<lambda>fid. if 0 < unat fid \<and> unat fid \<le> n then Some (one_chunk_file fid) else None)
             (c + 1 \<mapsto> one_chunk_file (c + 1))
         = (\<lambda>fid. if 0 < unat fid \<and> unat fid \<le> Suc n then Some (one_chunk_file fid) else None)"
  proof (rule ext)
    fix fid
    show "((\<lambda>fid. if 0 < unat fid \<and> unat fid \<le> n then Some (one_chunk_file fid) else None)
             (c + 1 \<mapsto> one_chunk_file (c + 1))) fid
         = (if 0 < unat fid \<and> unat fid \<le> Suc n then Some (one_chunk_file fid) else None)"
    proof (cases "fid = c + 1")
      case True
      then show ?thesis using c1 by simp
    next
      case False
      then have "unat fid \<noteq> Suc n" using e by simp
      with False show ?thesis by (auto simp: le_Suc_eq)
    qed
  qed
  have "initUpload (bob_uploads n) 1 bob_token [] [] 0 1 = Inr (c + 1, bob_uploads (Suc n))"
    unfolding st st' using cn assms f
    by (simp add: initUpload_def nextFileId_def requireSession_def bob_logged_in_def bob_def
        one_chunk_file_def)
  then show ?thesis by simp
qed

lemma reachable_bob_uploads: "n < 2 ^ 32 \<Longrightarrow> reachable (bob_uploads n)"
proof (induction n)
  case 0
  show ?case using reachable_bob_logged_in by (simp add: bob_uploads_0)
next
  case (Suc n)
  then have "reachable (bob_uploads n)" by simp
  from reachable_step [OF this bob_uploads_step [OF Suc.prems]] show ?case .
qed

lemma collision_texts:
  "nat32_toText 1111 = ''1111''" "int_toText 11 = ''11''"
  "chunkKey 1 0 \<noteq> chunkKey 1111 0"
  by code_simp+

lemma bob_uploads_1110:
  "bob_uploads 1110 =
     \<lparr>users = [1 \<mapsto> masterUser, 2 \<mapsto> bob],
      usersByName = [''SidneiCosta00'' \<mapsto> 1, ''bob'' \<mapsto> 2],
      files = (\<lambda>fid. if 0 < unat fid \<and> unat fid \<le> 1110
                       then Some (one_chunk_file fid) else None),
      chunks = Map.empty,
      sessions = [bob_token \<mapsto> \<lparr>userId = 2, token = bob_token, created_s = 1,
                                   lastActive = 1\<rparr>],
      shareTokens = Map.empty, userIdCounter = 2, fileIdCounter = 1110\<rparr>"
  by (simp add: bob_uploads_def bob_logged_in_def)

lemma reachable_collision_base: "reachable collision_base"
proof -
  let ?fs = "\<lambda>fid :: FileId. if 0 < unat fid \<and> unat fid \<le> 1110
                       then Some (one_chunk_file fid) else None"
  let ?s0 = "bob_uploads 1110"
  let ?s1 = "?s0\<lparr>chunks := [chunkKey 1 0 \<mapsto> [7]]\<rparr>"
  let ?s2 = "?s1\<lparr>userIdCounter := 3, users := [1 \<mapsto> masterUser, 2 \<mapsto> bob, 3 \<mapsto> carol],
               usersByName := [''SidneiCosta00'' \<mapsto> 1, ''bob'' \<mapsto> 2, ''carol'' \<mapsto> 3]\<rparr>"
  let ?s3 = "?s2\<lparr>sessions := (sessions ?s2)(carol_early_token \<mapsto>
               \<lparr>userId = 3, token = carol_early_token, created_s = 1, lastActive = 1\<rparr>)\<rparr>"
  let ?s4 = "?s3\<lparr>fileIdCounter := 1111, files := ?fs(1111 \<mapsto> carol_late_file)\<rparr>"
  have r0: "reachable ?s0"
    by (rule reachable_bob_uploads) simp
  have f1: "files ?s0 1 = Some (one_chunk_file 1)"
    by (simp add: bob_uploads_def)
  have o1: "owner_or_elevated bob (one_chunk_file 1)"
    by (simp add: owner_or_elevated_def bob_def one_chunk_file_def)
  have e1: "exec ?s0 1 (UploadChunk bob_token 1 0 [7]) = Inr ?s1"
    using uploadChunk_ok [OF f1 bob_uploads_session o1, of 0 "[7]"]
    by (simp add: bob_uploads_1110)
  have e2: "exec ?s1 1 (RegisterUser ''carol'' ''pw'') = Inr ?s2"
    by (simp add: registerUser_def bob_uploads_1110 nextUserId_def carol_def hashPassword_def)
  have e3: "exec ?s2 1 (Login ''carol'' ''pw'') = Inr ?s3"
    by (simp add: login_def bob_uploads_1110 carol_def hashPassword_def createToken_def
        int_toText_1 carol_early_token_def Let_def)
  have r3: "requireSession ?s3 carol_early_token = Inr carol"
    by (simp add: requireSession_def bob_uploads_1110)
  have e4: "exec ?s3 1 (InitUpload carol_early_token ''c.bin'' ''x'' 1 1) = Inr ?s4"
    using initUpload_ok [OF r3, of 1 1 "''c.bin''" "''x''" 1]
    by (simp add: carol_def bob_uploads_1110 carol_late_file_def)
  have r4: "requireSession ?s4 carol_early_token = Inr carol"
    by (simp add: requireSession_def bob_uploads_1110)
  have f4: "files ?s4 1111 = Some carol_late_file" by simp
  have o4: "owner_or_elevated carol carol_late_file"
    by (simp add: owner_or_elevated_def carol_def carol_late_file_def)
  have "uploadChunk ?s4 carol_early_token 1111 0 [9] =
      Inr (length (filter (\<lambda>j. j = 0 \<or> chunks ?s4 (chunkKey 1111 j) \<noteq> None)
                    [0..<totalChunks carol_late_file]), collision_base)"
    using uploadChunk_ok [OF f4 r4 o4, of 0 "[9]"]
    by (simp add: bob_uploads_1110 collision_base_def)
  then have e5: "exec ?s4 1 (UploadChunk carol_early_token 1111 0 [9]) = Inr collision_base"
    by simp
  note step = reachable_step
  show ?thesis
    by (rule step [OF step [OF step [OF step [OF step [OF r0 e1] e2] e3] e4] e5])
qed

lemma collision_base_facts:
  "files collision_base 1111 = Some carol_late_file"
  "files collision_base 1 = Some (one_chunk_file 1)"
  "requireSession collision_base carol_early_token = Inr carol"
  "requireSession collision_base bob_token = Inr bob"
  by (simp_all add: collision_base_def requireSession_def bob_token_def carol_early_token_def)

lemma collision_first_share:
  "generateShareLink collision_base 1 carol_early_token 1111 = Inr (''share1111111'', collision_before)"
proof -
  have o: "owner_or_elevated carol carol_late_file"
    by (simp add: owner_or_elevated_def carol_def carol_late_file_def)
  have t: "createToken 1 (''share'' @ nat32_toText 1111 @ int_toText 1) = ''share1111111''"
    by (simp add: createToken_def collision_texts int_toText_1)
  from generateShareLink_ok [OF collision_base_facts(1,3) o, of 1]
  show ?thesis
    unfolding t by (simp add: carol_late_file_def collision_before_def collision_base_def)
qed

lemma collision_before_facts:
  "files collision_before 1111 = Some (carol_late_file\<lparr>shareToken := Some ''share1111111''\<rparr>)"
  "files collision_before 1 = Some (one_chunk_file 1)"
  "requireSession collision_before bob_token = Inr bob"
  "shareTokens collision_before ''share1111111'' = Some 1111"
  "chunks collision_before = [chunkKey 1 0 \<mapsto> [7], chunkKey 1111 0 \<mapsto> [9]]"
  by (simp_all add: collision_before_def collision_base_def requireSession_def bob_token_def
      carol_early_token_def)

lemma collision_second_share:
  "generateShareLink collision_before 11 bob_token 1 = Inr (''share1111111'', collision_after)"
proof -
  have o: "owner_or_elevated bob (one_chunk_file 1)"
    by (simp add: owner_or_elevated_def bob_def one_chunk_file_def)
  have t: "createToken 11 (''share'' @ nat32_toText 1 @ int_toText 11) = ''share1111111''"
    by (simp add: createToken_def collision_texts nat32_toText_1)
  have m: "shareTokens collision_before = [''share1111111'' \<mapsto> 1111]"
    by (simp add: collision_before_def)
  from generateShareLink_ok [OF collision_before_facts(2,3) o, of 11]
  show ?thesis
    unfolding t by (simp add: one_chunk_file_def collision_after_def m)
qed

lemma collision_after_facts:
  "files collision_after 1 = Some ((one_chunk_file 1)\<lparr>shareToken := Some ''share1111111''\<rparr>)"
  "shareTokens collision_after ''share1111111'' = Some 1"
  "chunks collision_after = [chunkKey 1 0 \<mapsto> [7], chunkKey 1111 0 \<mapsto> [9]]"
  by (simp_all add: collision_after_def collision_before_facts)

lemma upt_1: "[0..<1] = [0]"
  by simp

text \<open>
  The last sentence of claim C8 as stated fails: in a reachable state the token
  \<open>share1111111\<close>, generated for file 1111 at time 1, opens file 1111 and not file 1;
  \<open>generateShareLink\<close> for file 1 at time 11 gives the same text and binds it to file 1,
  and the token then opens file 1.
\<close>

theorem share_token_other_file_counterexample:
  "reachable collision_base
   \<and> generateShareLink collision_base 1 carol_early_token 1111
        = Inr (''share1111111'', collision_before)
   \<and> downloadFile collision_before 1111 None (Some ''share1111111'')
        = Inr \<lparr>data = [9], mimeType_d = ''x'', filename_d = ''c.bin''\<rparr>
   \<and> downloadFile collision_before 1 None (Some ''share1111111'') = Inl NoCredentials
   \<and> generateShareLink collision_before 11 bob_token 1
        = Inr (''share1111111'', collision_after)
   \<and> downloadFile collision_after 1 None (Some ''share1111111'')
        = Inr \<lparr>data = [7], mimeType_d = [], filename_d = []\<rparr>"
proof -
  have 1: "downloadFile collision_before 1111 None (Some ''share1111111'')
        = Inr \<lparr>data = [9], mimeType_d = ''x'', filename_d = ''c.bin''\<rparr>"
    using downloadFile_share [OF collision_before_facts(1,4), of None]
    by (simp add: assemble_def collision_before_facts(5) carol_late_file_def)
  have "Some ''share1111111'' = None
      \<or> (\<exists>st. Some ''share1111111'' = Some st \<and> shareTokens collision_before st \<noteq> Some 1)"
    by (simp add: collision_before_facts(4))
  from downloadFile_session [OF collision_before_facts(2) this, of None]
  have 2: "downloadFile collision_before 1 None (Some ''share1111111'') = Inl NoCredentials"
    by simp
  have 3: "downloadFile collision_after 1 None (Some ''share1111111'')
        = Inr \<lparr>data = [7], mimeType_d = [], filename_d = []\<rparr>"
    using downloadFile_share [OF collision_after_facts(1,2), of None] collision_texts(3)
    by (simp add: assemble_def collision_after_facts(3) one_chunk_file_def)
  from 1 2 3 reachable_collision_base collision_first_share collision_second_share
  show ?thesis by simp
qed

end
